theory Spec2Isabelle
  imports Complex_Main "HOL-Library.Word" "HOL-Library.Sublist" "HOL-Library.Multiset"
begin

section \<open>JavaScript strings\<close>

text \<open>
  A JavaScript string is a sequence of UTF-16 code units: \<open>length\<close>, \<open>slice\<close>,
  \<open>split\<close> and \<open>includes\<close> all count and compare code units. A code unit is a
  16-bit word, a string a list of them. \<open>str\<close> turns an ASCII literal of the source
  into its code units.
\<close>

type_synonym jschar = "16 word"
type_synonym jsstring = "jschar list"

definition str :: "string \<Rightarrow> jsstring" where
  "str s = map of_char s"

definition space :: jschar where
  "space = 32"

text \<open>
  \<open>s.split(' ')\<close>: the pieces of \<open>s\<close> between the occurrences of the separator, empty
  pieces included (\<open>"".split(' ')\<close> is \<open>[""]\<close>, \<open>"a ".split(' ')\<close> is \<open>["a", ""]\<close>).
\<close>

fun js_split :: "'a \<Rightarrow> 'a list \<Rightarrow> 'a list list" where
  "js_split sep [] = [[]]"
| "js_split sep (c # cs) =
     (let ws = js_split sep cs
      in if c = sep then [] # ws else (c # hd ws) # tl ws)"

text \<open>
  \<open>s.includes(k)\<close>: some position of \<open>s\<close> starts with \<open>k\<close>; the empty string is
  included in every string.
\<close>

fun js_includes :: "'a list \<Rightarrow> 'a list \<Rightarrow> bool" where
  "js_includes [] k = (k = [])"
| "js_includes (c # cs) k = (prefix k (c # cs) \<or> js_includes cs k)"

text \<open>
  \<open>Array.prototype.sort(cmp)\<close> is a stable sort (ECMAScript 2019): elements that the
  comparator does not order strictly keep their order. It is modelled as the stable
  insertion sort; \<open>cmp a b \<le> 0\<close> means that \<open>a\<close> need not move behind \<open>b\<close>.
\<close>

fun js_insert :: "('a \<Rightarrow> 'a \<Rightarrow> int) \<Rightarrow> 'a \<Rightarrow> 'a list \<Rightarrow> 'a list" where
  "js_insert cmp x [] = [x]"
| "js_insert cmp x (y # ys) =
     (if cmp x y \<le> 0 then x # y # ys else y # js_insert cmp x ys)"

definition js_sort :: "('a \<Rightarrow> 'a \<Rightarrow> int) \<Rightarrow> 'a list \<Rightarrow> 'a list" where
  "js_sort cmp xs = foldr (js_insert cmp) xs []"

text \<open>
  The class \<open>\s\<close> of JavaScript regular expressions (white space and line
  terminators), by code unit.
\<close>

definition is_space_js :: "jschar \<Rightarrow> bool" where
  "is_space_js c =
     (c \<in> set [9, 10, 11, 12, 13, 32, 160, 5760, 8232, 8233, 8239, 8287, 12288, 65279]
      \<or> (8192 \<le> c \<and> c \<le> 8202))"

section \<open>The document collection\<close>

text \<open>
  A file record as \<open>/api/upload\<close> builds it (server.js, \<open>newFile\<close>). The fields other
  than \<open>content\<close> form the record that the upload response and \<open>GET /files\<close> send
  back; \<open>FileRecord\<close> adds the extracted text. \<open>idF\<close> and \<open>typeF\<close> are the source's
  \<open>id\<close> and \<open>type\<close>.
\<close>

record FileMeta =
  idF :: jsstring
  name :: jsstring
  path :: jsstring
  typeF :: jsstring
  timestamp :: nat
  category :: jsstring
  description :: jsstring
  source :: jsstring
  period :: jsstring
  caseName :: jsstring

record FileRecord = FileMeta +
  content :: jsstring

section \<open>The relevance selector of \<open>/api/ask\<close>\<close>

text \<open>
  server.js, lines 253 to 291. \<open>String.prototype.toLowerCase\<close> is a built-in of the
  language and not code of the repository: every definition that calls it takes it as
  the parameter \<open>toLowerCase\<close>, and every theorem holds for each such function.
\<close>

definition MAX_CONTEXT_CHARS :: nat where
  "MAX_CONTEXT_CHARS = 250000"

definition keywords_of :: "(jsstring \<Rightarrow> jsstring) \<Rightarrow> jsstring \<Rightarrow> jsstring list" where
  "keywords_of toLowerCase message =
     filter (\<lambda>w. length w > 3) (js_split space (toLowerCase message))"

definition fullMeta :: "(jsstring \<Rightarrow> jsstring) \<Rightarrow> FileRecord \<Rightarrow> jsstring" where
  "fullMeta toLowerCase f =
     toLowerCase (name f @ space # caseName f @ space # category f @ space # description f)"

record item =
  fileOf :: FileRecord
  score :: int

text \<open>The body of \<open>db.files.map\<close>: \<open>keywords.forEach\<close> adds 10 for each keyword found.\<close>

definition scoreFile :: "(jsstring \<Rightarrow> jsstring) \<Rightarrow> jsstring list \<Rightarrow> FileRecord \<Rightarrow> item" where
  "scoreFile toLowerCase ks f =
     \<lparr>fileOf = f,
      score = fold (\<lambda>k s. if js_includes (fullMeta toLowerCase f) k then s + 10 else s) ks 0\<rparr>"

text \<open>The comparator \<open>(a, b) => b.score - a.score\<close>.\<close>

definition byScore :: "item \<Rightarrow> item \<Rightarrow> int" where
  "byScore a b = score b - score a"

definition sortedFiles :: "(jsstring \<Rightarrow> jsstring) \<Rightarrow> jsstring \<Rightarrow> FileRecord list \<Rightarrow> item list" where
  "sortedFiles toLowerCase message files =
     js_sort byScore (map (scoreFile toLowerCase (keywords_of toLowerCase message)) files)"

text \<open>\<open>f.content ? f.content.slice(0, 30000) : ''\<close>\<close>

definition contentSnippet :: "FileRecord \<Rightarrow> jsstring" where
  "contentSnippet f = (if content f \<noteq> [] then take 30000 (content f) else [])"

text \<open>The template literal \<open>fileBlock\<close>; the snippet is followed by one space.\<close>

definition fileBlock :: "FileRecord \<Rightarrow> jsstring" where
  "fileBlock f =
     str ''\<newline>--- ARQUIVO: '' @ name f @ str '' ---\<newline>METADADOS: Categoria: '' @ category f
     @ str '', Indicador: '' @ caseName f @ str '', Periodo: '' @ period f
     @ str '', Fonte: '' @ source f @ str '', Desc: '' @ description f
     @ str ''\<newline>CONTEUDO:\<newline>'' @ contentSnippet f @ str '' \<newline>--- FIM ARQUIVO ---\<newline>''"

text \<open>
  The loop \<open>for (const item of sortedFiles)\<close> with its two variables \<open>currentChars\<close>
  and \<open>selectedContext\<close>; \<open>break\<close> ends it at the first block that does not fit. The
  limit is a parameter here, \<open>selectContext\<close> passes the constant of the source.
\<close>

fun packContext :: "nat \<Rightarrow> item list \<Rightarrow> nat \<Rightarrow> jsstring \<Rightarrow> jsstring" where
  "packContext limit [] currentChars selectedContext = selectedContext"
| "packContext limit (it # its) currentChars selectedContext =
     (let fb = fileBlock (fileOf it)
      in if currentChars + length fb < limit
         then packContext limit its (currentChars + length fb) (selectedContext @ fb)
         else selectedContext)"

definition selectContext :: "(jsstring \<Rightarrow> jsstring) \<Rightarrow> jsstring \<Rightarrow> FileRecord list \<Rightarrow> jsstring" where
  "selectContext toLowerCase message files =
     packContext MAX_CONTEXT_CHARS (sortedFiles toLowerCase message files) 0 []"


section \<open>The chart extractor of the client\<close>

text \<open>
  A value that \<open>JSON.parse\<close> returns. An object is the list of its properties, each key
  once. \<open>JSON.parse\<close> itself is a built-in: \<open>extractChart\<close> takes it as the parameter
  \<open>JSON_parse\<close>, which gives \<open>None\<close> where \<open>JSON.parse\<close> throws.
\<close>

datatype json =
  JNull | JBool bool | JNum rat | JStr jsstring | JArr "json list" | JObj "(jsstring \<times> json) list"

text \<open>The truth value JavaScript gives a parsed value in \<open>if (v)\<close> and \<open>v || w\<close>.\<close>

fun truthy :: "json \<Rightarrow> bool" where
  "truthy JNull = False"
| "truthy (JBool b) = b"
| "truthy (JNum n) = (n \<noteq> 0)"
| "truthy (JStr s) = (s \<noteq> [])"
| "truthy (JArr xs) = True"
| "truthy (JObj kvs) = True"

text \<open>
  \<open>v.k\<close> for a parsed value other than \<open>null\<close>; \<open>None\<close> is \<open>undefined\<close>. Only objects have
  the properties \<open>chart\<close> and \<open>message\<close>.
\<close>

fun get_prop :: "json \<Rightarrow> jsstring \<Rightarrow> json option" where
  "get_prop (JObj kvs) k = map_of kvs k"
| "get_prop v k = None"

definition lbrace :: jschar where
  "lbrace = 123"

definition rbrace :: jschar where
  "rbrace = 125"

definition fence :: jsstring where
  "fence = [96, 96, 96]"

text \<open>
  \<open>fullText.match(/\{[\s\S]*\}/)\<close>: the match starts at the first \<open>{\<close> and, the star being
  greedy, ends at the last \<open>}\<close> behind it; there is none when no \<open>}\<close> follows the first
  \<open>{\<close>.
\<close>

definition jsonMatch :: "jsstring \<Rightarrow> jsstring option" where
  "jsonMatch fullText =
     (let m = rev (dropWhile (\<lambda>c. c \<noteq> rbrace) (rev (dropWhile (\<lambda>c. c \<noteq> lbrace) fullText)))
      in if m = [] then None else Some m)"

text \<open>
  \<open>s.replace(/pat\s*/g, "")\<close> for a literal, non-empty \<open>pat\<close>: every occurrence of \<open>pat\<close>,
  from left to right, is removed with the white space behind it, and the scan goes on
  behind what was removed.
\<close>

function removeAll :: "jsstring \<Rightarrow> jsstring \<Rightarrow> jsstring" where
  "removeAll pat [] = []"
| "removeAll pat (c # cs) =
     (if pat \<noteq> [] \<and> prefix pat (c # cs)
      then removeAll pat (dropWhile is_space_js (drop (length pat) (c # cs)))
      else c # removeAll pat cs)"
  by pat_completeness auto
termination
proof (relation "measure (\<lambda>(pat, s). length s)")
  fix pat :: jsstring and c cs
  assume "pat \<noteq> [] \<and> prefix pat (c # cs)"
  then have "length (drop (length pat) (c # cs)) < length (c # cs)"
    by (cases pat) auto
  moreover have "length (dropWhile is_space_js (drop (length pat) (c # cs)))
      \<le> length (drop (length pat) (c # cs))"
    by (rule length_dropWhile_le)
  ultimately show "((pat, dropWhile is_space_js (drop (length pat) (c # cs))), (pat, c # cs))
      \<in> measure (\<lambda>(pat, s). length s)"
    by simp
qed auto

text \<open>The two \<open>replace\<close> calls that build \<open>cleanJson\<close>; \<open>fence\<close> is three backticks.\<close>

definition cleanJson :: "jsstring \<Rightarrow> jsstring" where
  "cleanJson m = removeAll fence (removeAll (fence @ str ''json'') m)"

text \<open>
  What \<open>streamResponse\<close> returns: \<open>textOf\<close> is the source's \<open>text\<close>, a parsed value
  because \<open>parsed.message\<close> can be one; a missing \<open>chartData\<close> is \<open>None\<close>.
\<close>

record chart_result =
  textOf :: json
  chartData :: "json option"

definition placeholder :: jsstring where
  "placeholder = str ''Gr'' @ [225] @ str ''fico gerado:''"

definition plain :: "jsstring \<Rightarrow> chart_result" where
  "plain fullText = \<lparr>textOf = JStr fullText, chartData = None\<rparr>"

definition fallbackText :: "jsstring \<Rightarrow> json" where
  "fallbackText fullText = (if js_includes fullText fence then JStr placeholder else JStr fullText)"

text \<open>
  The body of the \<open>try\<close> block: \<open>Inl ()\<close> when it throws (\<open>JSON.parse\<close> on malformed
  text, or \<open>parsed.chart\<close> on \<open>null\<close>), \<open>Inr (Some r)\<close> when it returns \<open>r\<close>, \<open>Inr None\<close>
  when it falls through.
\<close>

definition tryChart :: "(jsstring \<Rightarrow> json option) \<Rightarrow> jsstring \<Rightarrow> jsstring \<Rightarrow> unit + chart_result option" where
  "tryChart JSON_parse fullText m =
     (case JSON_parse (cleanJson m) of
        None \<Rightarrow> Inl ()
      | Some JNull \<Rightarrow> Inl ()
      | Some parsed \<Rightarrow>
          (case get_prop parsed (str ''chart'') of
             None \<Rightarrow> Inr None
           | Some c \<Rightarrow>
               if truthy c
               then Inr (Some \<lparr>textOf =
                       (case get_prop parsed (str ''message'') of
                          None \<Rightarrow> fallbackText fullText
                        | Some v \<Rightarrow> if truthy v then v else fallbackText fullText),
                     chartData = Some c\<rparr>)
               else Inr None))"

text \<open>
  The post-processing of \<open>streamResponse\<close> (lines 34 to 54) on the accumulated text: the
  \<open>catch\<close> ignores what the \<open>try\<close> block throws, and \<open>return { text: fullText }\<close> ends
  every path on which the block has not returned.
\<close>

definition extractChart :: "(jsstring \<Rightarrow> json option) \<Rightarrow> jsstring \<Rightarrow> chart_result" where
  "extractChart JSON_parse fullText =
     (case jsonMatch fullText of
        None \<Rightarrow> plain fullText
      | Some m \<Rightarrow>
          (case tryChart JSON_parse fullText m of
             Inl e \<Rightarrow> plain fullText
           | Inr None \<Rightarrow> plain fullText
           | Inr (Some r) \<Rightarrow> r))"


section \<open>The server: store, cache and handlers\<close>

text \<open>
  An HTTP response: the status and what the handler sent. \<open>StreamBody\<close> is a
  \<open>text/plain\<close> response, the list of the texts that \<open>res.write\<close> sent before \<open>res.end()\<close>.
\<close>

datatype body =
    TextBody jsstring
  | UploadBody FileMeta
  | ErrorBody jsstring
  | FilesBody "FileMeta list"
  | SuccessBody
  | StreamBody "jsstring list"

record response =
  statusCode :: nat
  body :: body

text \<open>
  Modelled from the spec: \<open>appCache\<close> is a \<open>NodeCache\<close> with \<open>stdTTL: 3600\<close>, a library
  that is not among the sources. Section 4.4 of the specification: an in-memory expiring
  map, where absence after the TTL has elapsed is the same as never having been set,
  and \<open>flushAll\<close> empties the map. An entry holds its value and the time, in
  milliseconds, at which it expires: the moment of \<open>set\<close> plus 3600 seconds.
\<close>

type_synonym cache = "jsstring \<rightharpoonup> jsstring \<times> nat"

definition stdTTL :: nat where
  "stdTTL = 3600"

definition cache_get :: "nat \<Rightarrow> cache \<Rightarrow> jsstring \<Rightarrow> jsstring option" where
  "cache_get t c k =
     (case c k of None \<Rightarrow> None | Some (v, expires) \<Rightarrow> if expires < t then None else Some v)"

definition cache_set :: "nat \<Rightarrow> cache \<Rightarrow> jsstring \<Rightarrow> jsstring \<Rightarrow> cache" where
  "cache_set t c k v = c(k \<mapsto> (v, t + stdTTL * 1000))"

text \<open>
  The state the handlers share: the parsed \<open>DB_FILE\<close> (\<open>None\<close> when the file is missing
  or not \<open>{files: [...]}\<close>), the paths of the files present in the upload directory, the
  cache, and a journal of what the handlers did, oldest first: a call of
  \<open>writeFileSync\<close> on \<open>DB_FILE\<close>, a call of \<open>unlinkSync\<close>, a \<open>flushAll\<close>, a call of the
  model with the context and the messages sent.
\<close>

datatype effect =
    DbWrite
  | FileUnlink jsstring
  | CacheFlush
  | ModelCall jsstring "(jsstring \<times> jsstring) list"

record server =
  dbFile :: "FileRecord list option"
  disk :: "jsstring set"
  appCache :: cache
  journal :: "effect list"

text \<open>
  What the world answers to one request. \<open>readers\<close> gives, for a path, the outcome of
  the library calls of each branch of \<open>extractText\<close>: \<open>Inl msg\<close> when a call throws an
  error with the message \<open>msg\<close>, \<open>Inr\<close> the text read (for a workbook, its sheets in order,
  each with its name and its CSV text). \<open>model_outcome\<close> is the answer of
  \<open>generateContentStream\<close>: the \<open>chunk.text\<close> values delivered in order (the empty
  string for a chunk without text), and the error thrown after them, if any. \<open>now\<close> is \<open>Date.now()\<close> at the start of the request,
  \<open>finished\<close> at the moment \<open>appCache.set\<close> runs.
\<close>

record readers =
  readText :: "jsstring \<Rightarrow> jsstring + jsstring"
  readXlsx :: "jsstring \<Rightarrow> jsstring + (jsstring \<times> jsstring) list"
  readDocx :: "jsstring \<Rightarrow> jsstring + jsstring"
  readPdf :: "jsstring \<Rightarrow> jsstring + jsstring"

record js_error =
  errStatus :: "nat option"
  errMessage :: "jsstring option"

record model_outcome =
  chunks :: "jsstring list"
  failure :: "js_error option"

record env =
  now :: nat
  finished :: nat
  uuid :: jsstring
  apiKey :: "jsstring option"
  writeOk :: bool
  unlinkOk :: bool
  reader :: readers
  model :: model_outcome

text \<open>
  \<open>readDb\<close> and \<open>writeDb\<close>: a failed read gives the empty collection, a failed write is
  logged and changes nothing.
\<close>

definition readDb :: "server \<Rightarrow> FileRecord list" where
  "readDb s = (case dbFile s of None \<Rightarrow> [] | Some fs \<Rightarrow> fs)"

definition writeDb :: "env \<Rightarrow> FileRecord list \<Rightarrow> server \<Rightarrow> server" where
  "writeDb e fs s =
     (if writeOk e then s\<lparr>dbFile := Some fs, journal := journal s @ [DbWrite]\<rparr>
      else s\<lparr>journal := journal s @ [DbWrite]\<rparr>)"

definition flushAll :: "server \<Rightarrow> server" where
  "flushAll s = s\<lparr>appCache := Map.empty, journal := journal s @ [CacheFlush]\<rparr>"

text \<open>
  \<open>extractText\<close>, with \<open>path.extname\<close> as the parameter \<open>extname\<close> (a built-in of Node).
  The \<open>catch\<close> turns an error of any branch into the text \<open>readError\<close>.
\<close>

definition readError :: "jsstring \<Rightarrow> jsstring" where
  "readError msg = str ''Erro ao ler arquivo: '' @ msg"

definition extractText ::
  "(jsstring \<Rightarrow> jsstring) \<Rightarrow> (jsstring \<Rightarrow> jsstring) \<Rightarrow> readers
     \<Rightarrow> jsstring \<Rightarrow> jsstring \<Rightarrow> jsstring \<Rightarrow> jsstring" where
  "extractText toLowerCase extname rd filePath mimeType originalName =
     (let ext = toLowerCase (extname originalName)
      in if ext = str ''.csv'' \<or> ext = str ''.txt'' \<or> ext = str ''.json''
         then (case readText rd filePath of Inl msg \<Rightarrow> readError msg | Inr t \<Rightarrow> t)
         else if ext = str ''.xlsx'' \<or> ext = str ''.xls''
         then (case readXlsx rd filePath of
                 Inl msg \<Rightarrow> readError msg
               | Inr sheets \<Rightarrow>
                   fold (\<lambda>(sheetName, csv) fullText.
                           fullText @ str ''\<newline>--- Planilha: '' @ sheetName @ str '' ---\<newline>'' @ csv)
                     sheets (str ''Arquivo Excel: '' @ originalName @ str ''\<newline>''))
         else if ext = str ''.docx''
         then (case readDocx rd filePath of Inl msg \<Rightarrow> readError msg | Inr t \<Rightarrow> t)
         else if ext = str ''.pdf''
         then (case readPdf rd filePath of Inl msg \<Rightarrow> readError msg | Inr t \<Rightarrow> t)
         else [])"

text \<open>
  \<open>POST /api/upload\<close>. \<open>uploaded\<close> is \<open>req.file\<close>, which multer has written to
  \<open>storedPath\<close> before the handler runs. \<open>metadata\<close> is \<open>req.body.metadata\<close> as
  \<open>JSON.parse(req.body.metadata || '{}')\<close> reads it: missing or empty, not JSON (the
  \<open>catch\<close> keeps \<open>{}\<close>), the JSON \<open>null\<close>, or a value with the five properties the handler
  reads, each absent or a string (the form of the client sends strings). Reading a
  property of \<open>null\<close> throws inside the second \<open>try\<close>: \<open>fieldsOf\<close> is \<open>None\<close> there.
\<close>

record uploaded =
  originalname :: jsstring
  storedPath :: jsstring
  mimetype :: jsstring

record metafields =
  metaCategory :: "jsstring option"
  metaDescription :: "jsstring option"
  metaSource :: "jsstring option"
  metaPeriod :: "jsstring option"
  metaCaseName :: "jsstring option"

datatype metadata = MetaMissing | MetaInvalid | MetaNull | MetaObject metafields

record upload_request =
  fileOfReq :: "uploaded option"
  metadataOfReq :: metadata

definition noFields :: metafields where
  "noFields = \<lparr>metaCategory = None, metaDescription = None, metaSource = None,
     metaPeriod = None, metaCaseName = None\<rparr>"

fun fieldsOf :: "metadata \<Rightarrow> metafields option" where
  "fieldsOf MetaMissing = Some noFields"
| "fieldsOf MetaInvalid = Some noFields"
| "fieldsOf MetaNull = None"
| "fieldsOf (MetaObject md) = Some md"

definition orElse :: "jsstring option \<Rightarrow> jsstring \<Rightarrow> jsstring" where
  "orElse v d = (case v of None \<Rightarrow> d | Some s \<Rightarrow> if s \<noteq> [] then s else d)"

definition dot :: jschar where
  "dot = 46"

definition newFile ::
  "(jsstring \<Rightarrow> jsstring) \<Rightarrow> env \<Rightarrow> uploaded \<Rightarrow> metafields \<Rightarrow> jsstring \<Rightarrow> FileRecord" where
  "newFile extname e f md textContent =
     \<lparr>idF = uuid e, name = originalname f, path = storedPath f,
      typeF = remove1 dot (extname (originalname f)), timestamp = now e,
      category = orElse (metaCategory md) (str ''Geral''),
      description = orElse (metaDescription md) [],
      source = orElse (metaSource md) [], period = orElse (metaPeriod md) [],
      caseName = orElse (metaCaseName md) [], content = textContent\<rparr>"

definition upload ::
  "(jsstring \<Rightarrow> jsstring) \<Rightarrow> (jsstring \<Rightarrow> jsstring) \<Rightarrow> env \<Rightarrow> upload_request
     \<Rightarrow> server \<Rightarrow> response \<times> server" where
  "upload toLowerCase extname e req s =
     (case fileOfReq req of
        None \<Rightarrow> (\<lparr>statusCode = 400, body = TextBody (str ''No file uploaded.'')\<rparr>, s)
      | Some f \<Rightarrow>
          (let s0 = s\<lparr>disk := insert (storedPath f) (disk s)\<rparr>;
               textContent = extractText toLowerCase extname (reader e) (storedPath f)
                               (mimetype f) (originalname f)
           in case fieldsOf (metadataOfReq req) of
                None \<Rightarrow>
                  (\<lparr>statusCode = 500, body = ErrorBody (str ''Processing failed'')\<rparr>, s0)
              | Some md \<Rightarrow>
                  (let file = newFile extname e f md textContent;
                       s1 = writeDb e (readDb s0 @ [file]) s0;
                       s2 = flushAll s1
                   in (\<lparr>statusCode = 200, body = UploadBody (FileMeta.truncate file)\<rparr>, s2))))"


text \<open>\<open>DELETE /files/:id\<close>; \<open>findIndex\<close> gives \<open>None\<close> where JavaScript gives \<open>-1\<close>.\<close>

fun findIndex :: "('a \<Rightarrow> bool) \<Rightarrow> 'a list \<Rightarrow> nat option" where
  "findIndex P [] = None"
| "findIndex P (x # xs) = (if P x then Some 0 else map_option Suc (findIndex P xs))"

definition unlink :: "env \<Rightarrow> jsstring \<Rightarrow> server \<Rightarrow> server" where
  "unlink e p s =
     (if p \<in> disk s
      then (if unlinkOk e
            then s\<lparr>disk := disk s - {p}, journal := journal s @ [FileUnlink p]\<rparr>
            else s\<lparr>journal := journal s @ [FileUnlink p]\<rparr>)
      else s)"

definition deleteFile :: "env \<Rightarrow> jsstring \<Rightarrow> server \<Rightarrow> response \<times> server" where
  "deleteFile e i s =
     (let db = readDb s
      in case findIndex (\<lambda>f. idF f = i) db of
           None \<Rightarrow> (\<lparr>statusCode = 200, body = SuccessBody\<rparr>, s)
         | Some fileIndex \<Rightarrow>
             (let file = db ! fileIndex;
                  s1 = unlink e (path file) s;
                  s2 = writeDb e (take fileIndex db @ drop (Suc fileIndex) db) s1;
                  s3 = flushAll s2
              in (\<lparr>statusCode = 200, body = SuccessBody\<rparr>, s3)))"

text \<open>
  \<open>POST /api/ask\<close> on a body \<open>{message, history}\<close>. \<open>decimal\<close> is
  \<open>JSON.stringify\<close> of a length. The system instruction is a fixed text around
  \<open>selectedContext\<close>; the journal keeps the context and the messages sent.
\<close>

record chat_message =
  roleOf :: jsstring
  textMsg :: jsstring

record ask_request =
  messageOf :: jsstring
  historyOf :: "chat_message list"

function decimal :: "nat \<Rightarrow> jsstring" where
  "decimal n = (if n < 10 then [of_nat (48 + n)] else decimal (n div 10) @ [of_nat (48 + n mod 10)])"
  by pat_completeness auto
termination
  by (relation "measure id") auto

definition cacheKey :: "ask_request \<Rightarrow> jsstring" where
  "cacheKey req = str ''ask_'' @ messageOf req @ str ''_'' @ decimal (length (historyOf req))"

definition rateLimitText :: jsstring where
  "rateLimitText = str ''\<newline>\<newline>'' @ [9888, 65039] @ str '' *O sistema est'' @ [225]
     @ str '' com alto volume de dados (Limite de Cota Atingido). Por favor, ''
     @ str ''aguarde 30 segundos e tente novamente com uma pergunta mais espec''
     @ [237] @ str ''fica.*''"

definition genericErrorText :: jsstring where
  "genericErrorText =
     str ''\<newline>\<newline>[Sistema] Erro ao processar resposta da IA. Verifique logs do servidor.''"

definition isRateLimit :: "js_error \<Rightarrow> bool" where
  "isRateLimit err =
     (errStatus err = Some 429
      \<or> (case errMessage err of None \<Rightarrow> False | Some m \<Rightarrow> js_includes m (str ''429''))
      \<or> (case errMessage err of None \<Rightarrow> False | Some m \<Rightarrow> js_includes m (str ''quota'')))"

definition apology :: "js_error \<Rightarrow> jsstring" where
  "apology err = (if isRateLimit err then rateLimitText else genericErrorText)"

definition chatHistory :: "chat_message list \<Rightarrow> (jsstring \<times> jsstring) list" where
  "chatHistory h =
     map (\<lambda>m. (roleOf m, textMsg m))
       (filter (\<lambda>m. roleOf m = str ''user'' \<or> roleOf m = str ''model'') h)"

definition cachedResponse :: "env \<Rightarrow> server \<Rightarrow> ask_request \<Rightarrow> jsstring option" where
  "cachedResponse e s req =
     (case cache_get (now e) (appCache s) (cacheKey req) of
        None \<Rightarrow> None
      | Some t \<Rightarrow> if t \<noteq> [] then Some t else None)"

definition ask ::
  "(jsstring \<Rightarrow> jsstring) \<Rightarrow> env \<Rightarrow> ask_request \<Rightarrow> server \<Rightarrow> response \<times> server" where
  "ask toLowerCase e req s =
     (if apiKey e = None \<or> apiKey e = Some []
      then (\<lparr>statusCode = 500, body = ErrorBody (str ''Server API Key missing'')\<rparr>, s)
      else case cachedResponse e s req of
             Some t \<Rightarrow> (\<lparr>statusCode = 200, body = StreamBody [t]\<rparr>, s)
           | None \<Rightarrow>
               (let selectedContext = selectContext toLowerCase (messageOf req) (readDb s);
                    contents = chatHistory (historyOf req) @ [(str ''user'', messageOf req)];
                    s1 = s\<lparr>journal := journal s @ [ModelCall selectedContext contents]\<rparr>;
                    written = filter (\<lambda>c. c \<noteq> []) (chunks (model e));
                    fullText = concat written
                in case failure (model e) of
                     Some err \<Rightarrow>
                       (\<lparr>statusCode = 200, body = StreamBody (written @ [apology err])\<rparr>, s1)
                   | None \<Rightarrow>
                       (\<lparr>statusCode = 200, body = StreamBody written\<rparr>,
                        if fullText \<noteq> []
                        then s1\<lparr>appCache := cache_set (finished e) (appCache s1) (cacheKey req) fullText\<rparr>
                        else s1)))"


section \<open>The selector in the words of the specification\<close>

text \<open>
  For the comparison with \<open>scoreFile\<close>: the score as the specification words it. The
  query is cut at every white-space character, tokens shorter than 4 are discarded,
  the remaining tokens are lowercased, and each one that occurs in the lowercased
  metadata string counts 10.
\<close>

fun spec_tokens :: "jsstring \<Rightarrow> jsstring list" where
  "spec_tokens [] = [[]]"
| "spec_tokens (c # cs) =
     (let ws = spec_tokens cs
      in if is_space_js c then [] # ws else (c # hd ws) # tl ws)"

definition spec_score :: "(jsstring \<Rightarrow> jsstring) \<Rightarrow> jsstring \<Rightarrow> FileRecord \<Rightarrow> int" where
  "spec_score toLowerCase message f =
     10 * int (length (filter (\<lambda>t. sublist t (fullMeta toLowerCase f))
       (map toLowerCase (filter (\<lambda>w. 4 \<le> length w) (spec_tokens message)))))"


section \<open>The chart extractor in the words of the specification\<close>

text \<open>
  For the comparison with \<open>extractChart\<close>: a parsed object that has a \<open>chart\<close> field
  gives that chart, with the \<open>message\<close> field as display text if present.
\<close>

definition spec_extractChart :: "(jsstring \<Rightarrow> json option) \<Rightarrow> jsstring \<Rightarrow> chart_result" where
  "spec_extractChart JSON_parse fullText =
     (case jsonMatch fullText of
        None \<Rightarrow> plain fullText
      | Some m \<Rightarrow>
          (case JSON_parse (cleanJson m) of
             None \<Rightarrow> plain fullText
           | Some parsed \<Rightarrow>
               (case get_prop parsed (str ''chart'') of
                  None \<Rightarrow> plain fullText
                | Some c \<Rightarrow>
                    \<lparr>textOf =
                       (case get_prop parsed (str ''message'') of
                          None \<Rightarrow> fallbackText fullText
                        | Some v \<Rightarrow> v),
                     chartData = Some c\<rparr>)))"


section \<open>Concrete data for the examples\<close>

text \<open>
  \<open>String.prototype.toLowerCase\<close> on strings whose code units are ASCII or U+0130:
  \<open>A\<close> to \<open>Z\<close> become \<open>a\<close> to \<open>z\<close>, and U+0130 (capital I with dot above) becomes
  the two code units U+0069 U+0307, the unconditional mapping of Unicode's
  SpecialCasing.txt that ECMAScript prescribes; every other code unit is left as it
  is. The examples apply it to such strings only.
\<close>

definition lowerChar :: "jschar \<Rightarrow> jsstring" where
  "lowerChar c =
     (if 65 \<le> c \<and> c \<le> 90 then [c + 32] else if c = 304 then [105, 775] else [c])"

definition lowerCase :: "jsstring \<Rightarrow> jsstring" where
  "lowerCase s = concat (map lowerChar s)"

definition sampleFile :: "jsstring \<Rightarrow> jsstring \<Rightarrow> jsstring \<Rightarrow> FileRecord" where
  "sampleFile nm desc txt =
     \<lparr>idF = nm, name = nm, path = str ''uploads/'' @ nm, typeF = str ''csv'', timestamp = 0,
      category = str ''Geral'', description = desc, source = [], period = [], caseName = [],
      content = txt\<rparr>"

definition bigFile :: FileRecord where
  "bigFile = sampleFile (str ''a.csv'') [] (replicate 30000 97)"

definition nineFiles :: "FileRecord list" where
  "nineFiles = [bigFile, bigFile, bigFile, bigFile, bigFile, bigFile, bigFile, bigFile, bigFile]"

definition docNotas :: FileRecord where
  "docNotas = sampleFile (str ''notas.txt'') [] []"

definition docSaude :: FileRecord where
  "docSaude = sampleFile (str ''saude.csv'') (str ''Mortalidade infantil'') []"

definition docObras :: FileRecord where
  "docObras = sampleFile (str ''obras.pdf'') [] []"

definition docMortalidade :: FileRecord where
  "docMortalidade = sampleFile (str ''mortalidade.csv'') [] []"

definition fourFiles :: "FileRecord list" where
  "fourFiles = [docNotas, docSaude, docObras, docMortalidade]"

definition queryTaxa :: jsstring where
  "queryTaxa = str ''Taxa de MORTALIDADE''"


definition queryLines :: jsstring where
  "queryLines = str ''taxa\<newline>mortalidade''"

definition docX :: FileRecord where
  "docX = sampleFile (str ''x'') [] []"

definition queryI :: jsstring where
  "queryI = [97, 98, 304]"

definition docI :: FileRecord where
  "docI = sampleFile [97, 98, 304] [] []"

definition queryISaude :: jsstring where
  "queryISaude = [97, 98, 304, 32] @ str ''saude''"

definition queryShort :: jsstring where
  "queryShort = str ''e o PIB''"


definition dq :: jsstring where
  "dq = [34]"

definition textChartZero :: jsstring where
  "textChartZero = str ''{'' @ dq @ str ''chart'' @ dq @ str '':0,'' @ dq @ str ''message'' @ dq
     @ str '':'' @ dq @ str ''ok'' @ dq @ str ''}''"

definition textBar :: jsstring where
  "textBar = str ''Resultado: {'' @ dq @ str ''chart'' @ dq @ str '':{'' @ dq @ str ''type'' @ dq
     @ str '':'' @ dq @ str ''bar'' @ dq @ str ''}}''"

definition textFenced :: jsstring where
  "textFenced = fence @ str ''json\<newline>{'' @ dq @ str ''chart'' @ dq @ str '':{'' @ dq @ str ''type''
     @ dq @ str '':'' @ dq @ str ''bar'' @ dq @ str ''}}\<newline>'' @ fence"

definition textBroken :: jsstring where
  "textBroken = str ''Total {abc} habitantes''"

definition chartBar :: json where
  "chartBar = JObj [(str ''type'', JStr (str ''bar''))]"

definition textEmptyMessage :: jsstring where
  "textEmptyMessage = str ''{'' @ dq @ str ''chart'' @ dq @ str '':{'' @ dq @ str ''type'' @ dq
     @ str '':'' @ dq @ str ''bar'' @ dq @ str ''},'' @ dq @ str ''message'' @ dq @ str '':''
     @ dq @ dq @ str ''}''"

text \<open>
  \<open>JSON.parse\<close> on the texts of the examples: the listed texts with the values they
  denote; every other text of the examples is malformed.
\<close>

definition parseTable :: "jsstring \<Rightarrow> json option" where
  "parseTable = map_of
     [(textChartZero, JObj [(str ''chart'', JNum 0), (str ''message'', JStr (str ''ok''))]),
      (textEmptyMessage, JObj [(str ''chart'', chartBar), (str ''message'', JStr [])]),
      (drop 11 textBar, JObj [(str ''chart'', chartBar)])]"


text \<open>
  \<open>path.extname\<close> on a file name without a directory part (and other than \<open>..\<close>): the
  name from its last dot on, and the empty string when it has no dot or only a leading
  one.
\<close>

definition extnameOf :: "jsstring \<Rightarrow> jsstring" where
  "extnameOf nm =
     (let r = takeWhile (\<lambda>c. c \<noteq> dot) (rev nm)
      in if length r = length nm \<or> Suc (length r) = length nm then [] else dot # rev r)"

text \<open>A world for the examples, and requests made in it.\<close>

definition readers0 :: readers where
  "readers0 =
     \<lparr>readText = (\<lambda>p. Inr (str ''ano,valor'')),
      readXlsx = (\<lambda>p. Inl (str ''bad zip'')),
      readDocx = (\<lambda>p. Inr (str ''texto'')),
      readPdf = (\<lambda>p. Inl (str ''Invalid PDF structure''))\<rparr>"

definition model0 :: model_outcome where
  "model0 = \<lparr>chunks = [str ''A taxa '', [], str ''caiu.''], failure = None\<rparr>"

definition env0 :: env where
  "env0 =
     \<lparr>now = 1000, finished = 2000, uuid = str ''id-1'', apiKey = Some (str ''key''),
      writeOk = True, unlinkOk = True, reader = readers0, model = model0\<rparr>"

definition server0 :: server where
  "server0 = \<lparr>dbFile = None, disk = {}, appCache = Map.empty, journal = []\<rparr>"

definition fieldsSaude :: metafields where
  "fieldsSaude = noFields\<lparr>metaCategory := Some (str ''Saude'')\<rparr>"

definition uploadedCsv :: uploaded where
  "uploadedCsv =
     \<lparr>originalname = str ''dados.CSV'', storedPath = str ''uploads/1-dados.CSV'',
      mimetype = str ''text/csv''\<rparr>"

definition uploadCsv :: upload_request where
  "uploadCsv = \<lparr>fileOfReq = Some uploadedCsv, metadataOfReq = MetaObject fieldsSaude\<rparr>"

definition uploadedZip :: uploaded where
  "uploadedZip =
     \<lparr>originalname = str ''arquivo.zip'', storedPath = str ''uploads/2-arquivo.zip'',
      mimetype = str ''application/zip''\<rparr>"

definition uploadZip :: upload_request where
  "uploadZip = \<lparr>fileOfReq = Some uploadedZip, metadataOfReq = MetaMissing\<rparr>"

definition uploadedXlsx :: uploaded where
  "uploadedXlsx =
     \<lparr>originalname = str ''planilha.XLSX'', storedPath = str ''uploads/3-planilha.XLSX'',
      mimetype = str ''application/vnd.ms-excel''\<rparr>"

definition uploadXlsx :: upload_request where
  "uploadXlsx = \<lparr>fileOfReq = Some uploadedXlsx, metadataOfReq = MetaInvalid\<rparr>"

definition askTaxa :: ask_request where
  "askTaxa = \<lparr>messageOf = str ''Qual a taxa?'', historyOf = []\<rparr>"

definition serverCached :: server where
  "serverCached =
     \<lparr>dbFile = Some [docNotas], disk = {path docNotas},
      appCache = [cacheKey askTaxa \<mapsto> (str ''A taxa caiu.'', 3602000)], journal = []\<rparr>"


definition envNoKey :: env where
  "envNoKey = env0\<lparr>apiKey := None\<rparr>"

definition envQuota :: env where
  "envQuota = env0\<lparr>model := \<lparr>chunks = [str ''A taxa ''],
     failure = Some \<lparr>errStatus = Some 429, errMessage = None\<rparr>\<rparr>\<rparr>"

definition envLater :: env where
  "envLater = env0\<lparr>now := 5000, finished := 6000\<rparr>"

definition envEmpty :: env where
  "envEmpty = env0\<lparr>model := \<lparr>chunks = [[], []], failure = None\<rparr>\<rparr>"

definition askUser :: ask_request where
  "askUser = \<lparr>messageOf = str ''Qual a taxa?'',
     historyOf = [\<lparr>roleOf = str ''user'', textMsg = str ''oi''\<rparr>]\<rparr>"

definition askModel :: ask_request where
  "askModel = \<lparr>messageOf = str ''Qual a taxa?'',
     historyOf = [\<lparr>roleOf = str ''model'', textMsg = str ''pois n''\<rparr>]\<rparr>"


section \<open>Facts about the built-ins and the loop\<close>

lemma length_str: "length (str s) = length s"
  by (simp add: str_def)

lemma js_includes_sublist: "js_includes s k \<longleftrightarrow> sublist k s"
  by (induction s) (auto simp: sublist_Cons_right)

lemma fold_score_count:
  "fold (\<lambda>k s. if P k then s + 10 else s) ks (a::int) = a + 10 * int (length (filter P ks))"
  by (induction ks arbitrary: a) auto

lemma js_insert_insort:
  "js_insert byScore x xs = insort_key (\<lambda>it. - score it) x xs"
  by (induction xs) (auto simp: byScore_def)

lemma js_sort_sort_key: "js_sort byScore xs = sort_key (\<lambda>it. - score it) xs"
  by (induction xs) (auto simp: js_sort_def js_insert_insort)

lemma js_split_nonempty: "js_split sep s \<noteq> []"
  by (induction s) (auto simp: Let_def)

lemma js_split_join: "concat (map (\<lambda>t. t @ [sep]) (js_split sep s)) = s @ [sep]"
proof (induction s)
  case Nil
  then show ?case by simp
next
  case (Cons c cs)
  obtain w ws where ws: "js_split sep cs = w # ws"
    using js_split_nonempty [of sep cs] by (cases "js_split sep cs") auto
  with Cons show ?case by (auto simp: Let_def)
qed

lemma js_split_no_sep: "t \<in> set (js_split sep s) \<Longrightarrow> sep \<notin> set t"
proof (induction s arbitrary: t)
  case Nil
  then show ?case by simp
next
  case (Cons c cs)
  obtain w ws where ws: "js_split sep cs = w # ws"
    using js_split_nonempty [of sep cs] by (cases "js_split sep cs") auto
  with Cons show ?case by (auto simp: Let_def split: if_splits)
qed

lemma packContext_take:
  "\<exists>n\<le>length its.
     packContext limit its cur sel = sel @ concat (map (\<lambda>i. fileBlock (fileOf i)) (take n its)) \<and>
     (0 < n \<longrightarrow> cur + length (concat (map (\<lambda>i. fileBlock (fileOf i)) (take n its))) < limit) \<and>
     (n < length its \<longrightarrow>
        limit \<le> cur + length (concat (map (\<lambda>i. fileBlock (fileOf i)) (take n its)))
                 + length (fileBlock (fileOf (its ! n)))) \<and>
     (its \<noteq> [] \<and> cur + length (fileBlock (fileOf (hd its))) < limit \<longrightarrow> 0 < n)"
proof (induction its arbitrary: cur sel)
  case Nil
  then show ?case by simp
next
  case (Cons it its)
  show ?case
  proof (cases "cur + length (fileBlock (fileOf it)) < limit")
    case False
    then show ?thesis by (intro exI [of _ 0]) (simp add: Let_def)
  next
    case True
    from Cons [of "cur + length (fileBlock (fileOf it))" "sel @ fileBlock (fileOf it)"]
    obtain n where n: "n \<le> length its"
      "packContext limit its (cur + length (fileBlock (fileOf it))) (sel @ fileBlock (fileOf it))
         = (sel @ fileBlock (fileOf it)) @ concat (map (\<lambda>i. fileBlock (fileOf i)) (take n its))"
      "0 < n \<longrightarrow> cur + length (fileBlock (fileOf it))
          + length (concat (map (\<lambda>i. fileBlock (fileOf i)) (take n its))) < limit"
      "n < length its \<longrightarrow> limit \<le> cur + length (fileBlock (fileOf it))
          + length (concat (map (\<lambda>i. fileBlock (fileOf i)) (take n its)))
          + length (fileBlock (fileOf (its ! n)))"
      by blast
    show ?thesis
      using True n by (intro exI [of _ "Suc n"]) (cases "n = 0"; auto simp: Let_def add.assoc)
  qed
qed

lemma score_scoreFile:
  "score (scoreFile l ks f) = 10 * int (length (filter (\<lambda>k. sublist k (fullMeta l f)) ks))"
  by (simp add: scoreFile_def fold_score_count js_includes_sublist)

lemma score_zero_iff:
  "score (scoreFile l ks f) = 0 \<longleftrightarrow> (\<forall>k\<in>set ks. \<not> sublist k (fullMeta l f))"
  by (simp add: score_scoreFile filter_empty_conv)

lemma sortedFiles_sort_key:
  "sortedFiles l m fs = sort_key (\<lambda>it. - score it) (map (scoreFile l (keywords_of l m)) fs)"
  by (simp add: sortedFiles_def js_sort_sort_key)

lemma sortedFiles_descending:
  assumes "i < j" "j < length (sortedFiles l m fs)"
  shows "score (sortedFiles l m fs ! j) \<le> score (sortedFiles l m fs ! i)"
proof -
  have "sorted (map (\<lambda>it. - score it) (sortedFiles l m fs))"
    by (simp add: sortedFiles_sort_key)
  then have "map (\<lambda>it. - score it) (sortedFiles l m fs) ! i
      \<le> map (\<lambda>it. - score it) (sortedFiles l m fs) ! j"
    using assms by (intro sorted_nth_mono) auto
  then show ?thesis using assms by simp
qed

lemma sortedFiles_stable:
  "filter (\<lambda>it. score it = s) (sortedFiles l m fs)
     = filter (\<lambda>it. score it = s) (map (scoreFile l (keywords_of l m)) fs)"
  using sort_key_stable [of "\<lambda>it. - score it" "- s" "map (scoreFile l (keywords_of l m)) fs"]
  by (simp add: sortedFiles_sort_key)

lemma keywords_queryTaxa: "keywords_of lowerCase queryTaxa = [str ''taxa'', str ''mortalidade'']"
  by (simp add: keywords_of_def queryTaxa_def lowerCase_def lowerChar_def str_def space_def Let_def)

lemma scored_fourFiles:
  "map (scoreFile lowerCase (keywords_of lowerCase queryTaxa)) fourFiles
     = [\<lparr>fileOf = docNotas, score = 0\<rparr>, \<lparr>fileOf = docSaude, score = 10\<rparr>,
        \<lparr>fileOf = docObras, score = 0\<rparr>, \<lparr>fileOf = docMortalidade, score = 10\<rparr>]"
  unfolding keywords_queryTaxa
  by (simp add: fourFiles_def scoreFile_def fullMeta_def docNotas_def docSaude_def docObras_def
      docMortalidade_def sampleFile_def lowerCase_def lowerChar_def str_def space_def)

lemma sorted_fourFiles:
  "sortedFiles lowerCase queryTaxa fourFiles
     = [\<lparr>fileOf = docSaude, score = 10\<rparr>, \<lparr>fileOf = docMortalidade, score = 10\<rparr>,
        \<lparr>fileOf = docNotas, score = 0\<rparr>, \<lparr>fileOf = docObras, score = 0\<rparr>]"
  unfolding sortedFiles_def scored_fourFiles
  by (simp add: js_sort_def byScore_def)

section \<open>C1: the assembled context stays within the budget\<close>

lemma MAX_pos: "0 < MAX_CONTEXT_CHARS"
  by (simp add: MAX_CONTEXT_CHARS_def)

lemma contentSnippet_take: "contentSnippet f = take 30000 (content f)"
  by (simp add: contentSnippet_def)

lemma fileBlock_content_take: "fileBlock (f\<lparr>content := take 30000 (content f)\<rparr>) = fileBlock f"
  by (simp add: fileBlock_def contentSnippet_take)

lemma length_fileBlock:
  "length (fileBlock f) = length (fileBlock (f\<lparr>content := []\<rparr>)) + min 30000 (length (content f))"
  by (simp add: fileBlock_def contentSnippet_take)

lemma length_block_bigFile: "length (fileBlock bigFile) = 30125"
  by (simp add: bigFile_def sampleFile_def fileBlock_def contentSnippet_def length_str)

lemma keywords_empty: "keywords_of lowerCase [] = []"
  by (simp add: keywords_of_def lowerCase_def)

lemma sorted_nine:
  "sortedFiles lowerCase [] nineFiles = map (\<lambda>f. \<lparr>fileOf = f, score = 0\<rparr>) nineFiles"
  by (simp add: sortedFiles_def keywords_empty scoreFile_def nineFiles_def js_sort_def byScore_def)

text \<open>
  C1. For every query and every collection the context that \<open>/api/ask\<close> assembles is
  the concatenation of the whole blocks of the first \<open>n\<close> documents of the score-sorted
  list, for some \<open>n\<close>; its length is below \<open>MAX_CONTEXT_CHARS\<close> (250000); when a document
  is left (\<open>n\<close> is not the whole list), adding the block of the first omitted document
  would reach or exceed the limit, and that document and all later ones contribute
  nothing. A block holds the first 30000 code units of the content only: it is the block
  of the record with the content cut there, and its length is the length of the
  template with empty content plus \<open>min 30000 (length content)\<close>.
\<close>

theorem C1_context_within_budget:
  "(\<exists>n\<le>length (sortedFiles toLowerCase message files).
      selectContext toLowerCase message files
        = concat (map (\<lambda>i. fileBlock (fileOf i)) (take n (sortedFiles toLowerCase message files))) \<and>
      (n < length (sortedFiles toLowerCase message files) \<longrightarrow>
         MAX_CONTEXT_CHARS \<le> length (selectContext toLowerCase message files)
           + length (fileBlock (fileOf (sortedFiles toLowerCase message files ! n))))) \<and>
   length (selectContext toLowerCase message files) < MAX_CONTEXT_CHARS \<and>
   fileBlock (f\<lparr>content := take 30000 (content f)\<rparr>) = fileBlock f \<and>
   length (fileBlock f)
     = length (fileBlock (f\<lparr>content := []\<rparr>)) + min 30000 (length (content f))"
proof -
  let ?its = "sortedFiles toLowerCase message files"
  obtain n where n: "n \<le> length ?its"
    "packContext MAX_CONTEXT_CHARS ?its 0 [] = [] @ concat (map (\<lambda>i. fileBlock (fileOf i)) (take n ?its))"
    "0 < n \<longrightarrow> 0 + length (concat (map (\<lambda>i. fileBlock (fileOf i)) (take n ?its))) < MAX_CONTEXT_CHARS"
    "n < length ?its \<longrightarrow> MAX_CONTEXT_CHARS \<le> 0 + length (concat (map (\<lambda>i. fileBlock (fileOf i)) (take n ?its)))
        + length (fileBlock (fileOf (?its ! n)))"
    using packContext_take [of ?its MAX_CONTEXT_CHARS 0 "[]"] by blast
  have sel: "selectContext toLowerCase message files
      = concat (map (\<lambda>i. fileBlock (fileOf i)) (take n ?its))"
    using n(2) by (simp add: selectContext_def)
  have lt: "length (selectContext toLowerCase message files) < MAX_CONTEXT_CHARS"
  proof (cases "n = 0")
    case True
    then show ?thesis using sel MAX_pos by simp
  next
    case False
    then show ?thesis using n(3) sel by simp
  qed
  have "\<exists>n\<le>length ?its.
      selectContext toLowerCase message files
        = concat (map (\<lambda>i. fileBlock (fileOf i)) (take n ?its)) \<and>
      (n < length ?its \<longrightarrow>
         MAX_CONTEXT_CHARS \<le> length (selectContext toLowerCase message files)
           + length (fileBlock (fileOf (?its ! n))))"
    using n(1) n(4) sel by (intro exI [of _ n]) simp
  then show ?thesis
    using lt fileBlock_content_take [of f] length_fileBlock [of f] by blast
qed

theorem C1_witness:
  "length (sortedFiles lowerCase [] nineFiles) = 9 \<and>
   selectContext lowerCase [] nineFiles = concat (map fileBlock (take 8 nineFiles)) \<and>
   length (selectContext lowerCase [] nineFiles) = 241000 \<and>
   MAX_CONTEXT_CHARS \<le> length (selectContext lowerCase [] nineFiles)
      + length (fileBlock (fileOf (sortedFiles lowerCase [] nineFiles ! 8)))"
proof -
  have sel: "selectContext lowerCase [] nineFiles = concat (map fileBlock (take 8 nineFiles))"
    unfolding selectContext_def sorted_nine
    by (simp add: nineFiles_def length_block_bigFile MAX_CONTEXT_CHARS_def Let_def)
  have len: "length (concat (map fileBlock (take 8 nineFiles))) = 241000"
    by (simp add: nineFiles_def length_block_bigFile)
  have nth: "fileOf (sortedFiles lowerCase [] nineFiles ! 8) = bigFile"
    unfolding sorted_nine by (simp add: nineFiles_def)
  have n: "length (sortedFiles lowerCase [] nineFiles) = 9"
    unfolding sorted_nine by (simp add: nineFiles_def)
  show ?thesis
    using C1_context_within_budget [of lowerCase "[]" nineFiles bigFile]
    by (simp add: sel len nth n length_block_bigFile MAX_CONTEXT_CHARS_def)
qed

section \<open>C2: ten points for each keyword found in the metadata\<close>

lemma fullMeta_content: "fullMeta l (f\<lparr>content := c\<rparr>) = fullMeta l f"
  by (simp add: fullMeta_def)

text \<open>
  C2 (as amended). The score of a document is 10 times the number of keywords that are
  substrings of its metadata string. The keywords are the pieces of at least 4 code
  units of the lowercased query, cut at each space character U+0020 and nowhere else:
  the pieces, each followed by a space, concatenate to the lowercased query followed
  by a space, and no piece holds a space. The metadata string is the lowercased
  \<open>name\<close>, \<open>caseName\<close>, \<open>category\<close> and \<open>description\<close>, joined by single spaces. The
  content of the document has no influence on the score.
\<close>

theorem C2_ten_points_per_keyword:
  "score (scoreFile l (keywords_of l m) f)
     = 10 * int (length (filter (\<lambda>k. sublist k (fullMeta l f)) (keywords_of l m))) \<and>
   keywords_of l m = filter (\<lambda>w. 4 \<le> length w) (js_split space (l m)) \<and>
   concat (map (\<lambda>t. t @ [space]) (js_split space (l m))) = l m @ [space] \<and>
   (\<forall>t\<in>set (js_split space (l m)). space \<notin> set t) \<and>
   fullMeta l f
     = l (name f @ [space] @ caseName f @ [space] @ category f @ [space] @ description f) \<and>
   score (scoreFile l ks (f\<lparr>content := c\<rparr>)) = score (scoreFile l ks f)"
proof -
  have "keywords_of l m = filter (\<lambda>w. 4 \<le> length w) (js_split space (l m))"
    unfolding keywords_of_def by (rule filter_cong) auto
  moreover have "score (scoreFile l ks (f\<lparr>content := c\<rparr>)) = score (scoreFile l ks f)"
    by (simp add: score_scoreFile fullMeta_content)
  moreover have "fullMeta l f
     = l (name f @ [space] @ caseName f @ [space] @ category f @ [space] @ description f)"
    by (simp add: fullMeta_def)
  ultimately show ?thesis
    using score_scoreFile [of l "keywords_of l m" f] js_split_join [of space "l m"]
      js_split_no_sep [of _ space "l m"]
    by blast
qed

theorem C2_witness:
  "score (scoreFile lowerCase (keywords_of lowerCase queryTaxa) docSaude) = 10 \<and>
   keywords_of lowerCase queryTaxa = [str ''taxa'', str ''mortalidade''] \<and>
   str ''de'' \<in> set (js_split space (lowerCase queryTaxa)) \<and>
   space \<notin> set (str ''de'') \<and>
   score (scoreFile lowerCase (keywords_of lowerCase queryTaxa)
     (docSaude\<lparr>content := str ''taxa taxa''\<rparr>)) = 10"
proof -
  note c2 = C2_ten_points_per_keyword [of lowerCase queryTaxa docSaude
      "keywords_of lowerCase queryTaxa" "str ''taxa taxa''"]
  note c2_keywords = c2 [THEN conjunct2, THEN conjunct1]
  note c2_no_space = c2 [THEN conjunct2, THEN conjunct2, THEN conjunct2, THEN conjunct1]
  note c2_content = c2 [THEN conjunct2, THEN conjunct2, THEN conjunct2, THEN conjunct2,
      THEN conjunct2]
  have sp: "js_split space (lowerCase queryTaxa) = [str ''taxa'', str ''de'', str ''mortalidade'']"
    by (simp add: queryTaxa_def lowerCase_def lowerChar_def str_def space_def Let_def)
  have k: "keywords_of lowerCase queryTaxa = [str ''taxa'', str ''mortalidade'']"
    unfolding c2_keywords sp by (simp add: length_str)
  have de: "str ''de'' \<in> set (js_split space (lowerCase queryTaxa))"
    unfolding sp by simp
  have nsp: "space \<notin> set (str ''de'')"
    using c2_no_space de by (rule bspec)
  have s: "score (scoreFile lowerCase (keywords_of lowerCase queryTaxa) docSaude) = 10"
    using scored_fourFiles unfolding fourFiles_def by simp
  show ?thesis
    unfolding c2_content using s k de nsp by (intro conjI)
qed

text \<open>
  C2 as the claim words it cuts the query at white space. A query of two lines,
  \<open>taxa\<close> and \<open>mortalidade\<close>, has two tokens under that reading, and the document named
  \<open>mortalidade.csv\<close> scores 10; the code cuts at spaces only, its one keyword holds the
  line feed, and the document scores 0.
\<close>

lemma keywords_queryLines:
  "keywords_of lowerCase queryLines = [str ''taxa\<newline>mortalidade'']"
  by (simp add: keywords_of_def queryLines_def lowerCase_def lowerChar_def str_def space_def Let_def)

lemma spec_tokens_queryLines:
  "spec_tokens queryLines = [str ''taxa'', str ''mortalidade'']"
  by (simp add: queryLines_def str_def is_space_js_def Let_def)

theorem C2_counterexample:
  "score (scoreFile lowerCase (keywords_of lowerCase queryLines) docMortalidade) = 0 \<and>
   spec_score lowerCase queryLines docMortalidade = 10"
proof -
  have "score (scoreFile lowerCase (keywords_of lowerCase queryLines) docMortalidade) = 0"
    unfolding keywords_queryLines
    by (simp add: scoreFile_def fullMeta_def docMortalidade_def sampleFile_def lowerCase_def
        lowerChar_def str_def space_def)
  moreover have "spec_score lowerCase queryLines docMortalidade = 10"
    unfolding spec_score_def spec_tokens_queryLines js_includes_sublist [symmetric]
    by (simp add: fullMeta_def docMortalidade_def sampleFile_def lowerCase_def
        lowerChar_def str_def space_def)
  ultimately show ?thesis by simp
qed

section \<open>C3: the documents are ordered by score, ties in the collection's order\<close>

text \<open>
  C3 (as amended). For every query and collection the sorted list is a permutation of
  the scored documents, its scores never increase along the list, and for each score
  the documents with that score stand in the order they have in the collection (the
  sort is stable). A document scores 0 exactly when its metadata string contains none
  of the selector's keywords, the pieces of at least 4 code units of the lowercased
  query cut at each space U+0020, and no score is negative: a document that matches
  no keyword is never ahead of one that matches.
\<close>

theorem C3_stable_descending_order:
  "mset (sortedFiles l m fs) = mset (map (scoreFile l (keywords_of l m)) fs) \<and>
   (\<forall>i j. i < j \<and> j < length (sortedFiles l m fs) \<longrightarrow>
      score (sortedFiles l m fs ! j) \<le> score (sortedFiles l m fs ! i)) \<and>
   (\<forall>s. filter (\<lambda>it. score it = s) (sortedFiles l m fs)
      = filter (\<lambda>it. score it = s) (map (scoreFile l (keywords_of l m)) fs)) \<and>
   (\<forall>f. (score (scoreFile l (keywords_of l m) f) = 0)
      = (\<forall>k\<in>set (keywords_of l m). \<not> sublist k (fullMeta l f))) \<and>
   (\<forall>f. 0 \<le> score (scoreFile l (keywords_of l m) f))"
proof -
  have "mset (sortedFiles l m fs) = mset (map (scoreFile l (keywords_of l m)) fs)"
    by (simp add: sortedFiles_sort_key)
  moreover have "\<forall>f. 0 \<le> score (scoreFile l (keywords_of l m) f)"
    by (simp add: score_scoreFile)
  ultimately show ?thesis
    using sortedFiles_descending [of _ _ l m fs] sortedFiles_stable [of _ l m fs]
      score_zero_iff [of l "keywords_of l m"]
    by blast
qed

theorem C3_witness:
  "map fileOf (sortedFiles lowerCase queryTaxa fourFiles)
     = [docSaude, docMortalidade, docNotas, docObras] \<and>
   map score (sortedFiles lowerCase queryTaxa fourFiles) = [10, 10, 0, 0] \<and>
   (1::nat) < 2 \<and> 2 < length (sortedFiles lowerCase queryTaxa fourFiles) \<and>
   score (sortedFiles lowerCase queryTaxa fourFiles ! 2)
     \<le> score (sortedFiles lowerCase queryTaxa fourFiles ! 1) \<and>
   filter (\<lambda>it. score it = 0) (sortedFiles lowerCase queryTaxa fourFiles)
     = [\<lparr>fileOf = docNotas, score = 0\<rparr>, \<lparr>fileOf = docObras, score = 0\<rparr>]"
proof -
  have "filter (\<lambda>it. score it = 0) (sortedFiles lowerCase queryTaxa fourFiles)
      = filter (\<lambda>it. score it = 0)
          (map (scoreFile lowerCase (keywords_of lowerCase queryTaxa)) fourFiles)"
    using C3_stable_descending_order [of lowerCase queryTaxa fourFiles] by blast
  then show ?thesis
    unfolding scored_fourFiles by (simp add: sorted_fourFiles)
qed

text \<open>
  C3 as the claim words it speaks of the query's tokens of length at least 4. The query
  \<open>a\<close> \<open>b\<close> U+0130, space, \<open>saude\<close> has one such token, \<open>saude\<close>, whether it is cut at
  spaces or at white space, and the metadata of the document named \<open>a\<close> \<open>b\<close> U+0130 does
  not contain it. Lowercasing makes the first token four code units long, a keyword: the
  document scores 10, not 0, and stands ahead of a document that matches \<open>saude\<close>.
\<close>

theorem C3_counterexample:
  "filter (\<lambda>w. 4 \<le> length w) (js_split space queryISaude) = [str ''saude''] \<and>
   filter (\<lambda>w. 4 \<le> length w) (spec_tokens queryISaude) = [str ''saude''] \<and>
   \<not> sublist (lowerCase (str ''saude'')) (fullMeta lowerCase docI) \<and>
   sublist (lowerCase (str ''saude'')) (fullMeta lowerCase docSaude) \<and>
   score (scoreFile lowerCase (keywords_of lowerCase queryISaude) docI) = 10 \<and>
   score (scoreFile lowerCase (keywords_of lowerCase queryISaude) docSaude) = 10 \<and>
   map fileOf (sortedFiles lowerCase queryISaude [docI, docSaude]) = [docI, docSaude]"
proof -
  have raw: "filter (\<lambda>w. 4 \<le> length w) (js_split space queryISaude) = [str ''saude'']"
    by (simp add: queryISaude_def str_def space_def Let_def)
  have ws: "filter (\<lambda>w. 4 \<le> length w) (spec_tokens queryISaude) = [str ''saude'']"
    by (simp add: queryISaude_def str_def is_space_js_def Let_def)
  have no: "\<not> sublist (lowerCase (str ''saude'')) (fullMeta lowerCase docI)"
    unfolding js_includes_sublist [symmetric]
    by (simp add: fullMeta_def docI_def sampleFile_def lowerCase_def lowerChar_def str_def
        space_def)
  have yes: "sublist (lowerCase (str ''saude'')) (fullMeta lowerCase docSaude)"
    unfolding js_includes_sublist [symmetric]
    by (simp add: fullMeta_def docSaude_def sampleFile_def lowerCase_def lowerChar_def str_def
        space_def)
  have k: "keywords_of lowerCase queryISaude = [[97, 98, 105, 775], str ''saude'']"
    by (simp add: keywords_of_def queryISaude_def lowerCase_def lowerChar_def str_def space_def
        Let_def)
  have sc: "map (scoreFile lowerCase (keywords_of lowerCase queryISaude)) [docI, docSaude]
      = [\<lparr>fileOf = docI, score = 10\<rparr>, \<lparr>fileOf = docSaude, score = 10\<rparr>]"
    unfolding k
    by (simp add: scoreFile_def fullMeta_def docI_def docSaude_def sampleFile_def lowerCase_def
        lowerChar_def str_def space_def)
  have "sortedFiles lowerCase queryISaude [docI, docSaude]
      = [\<lparr>fileOf = docI, score = 10\<rparr>, \<lparr>fileOf = docSaude, score = 10\<rparr>]"
    unfolding sortedFiles_def sc by (simp add: js_sort_def byScore_def)
  then show ?thesis using raw ws no yes sc by simp
qed

section \<open>C5: the chart extractor\<close>

lemma dropWhile_decomp:
  "dropWhile P xs \<noteq> [] \<Longrightarrow>
   \<exists>pre. xs = pre @ dropWhile P xs \<and> (\<forall>x\<in>set pre. P x) \<and> \<not> P (hd (dropWhile P xs))"
  by (metis takeWhile_dropWhile_id set_takeWhileD hd_dropWhile)

lemma jsonMatch_Some:
  assumes "jsonMatch t = Some m"
  shows "\<exists>pre post. t = pre @ m @ post \<and> lbrace \<notin> set pre \<and> rbrace \<notin> set post \<and>
           hd m = lbrace \<and> last m = rbrace"
proof -
  define u where "u = dropWhile (\<lambda>c. c \<noteq> lbrace) t"
  define r where "r = dropWhile (\<lambda>c. c \<noteq> rbrace) (rev u)"
  from assms have m: "m = rev r" and r: "r \<noteq> []"
    by (auto simp: jsonMatch_def Let_def u_def r_def split: if_splits)
  then have mne: "m \<noteq> []" by simp
  obtain q where q: "rev u = q @ r" "\<forall>x\<in>set q. x \<noteq> rbrace" "hd r = rbrace"
    using dropWhile_decomp [of "\<lambda>c. c \<noteq> rbrace" "rev u"] r unfolding r_def by auto
  have "rev (rev u) = rev (q @ r)" using q(1) by simp
  then have u: "u = m @ rev q" using m by simp
  then have une: "u \<noteq> []" using mne by simp
  obtain pre where pre: "t = pre @ u" "\<forall>x\<in>set pre. x \<noteq> lbrace" "hd u = lbrace"
    using dropWhile_decomp [of "\<lambda>c. c \<noteq> lbrace" t] une unfolding u_def by auto
  have "hd u = hd m" unfolding u using mne by simp
  then have hd: "hd m = lbrace" using pre(3) by simp
  have "last m = hd r" unfolding m using r by (simp add: last_rev)
  then have last: "last m = rbrace" using q(3) by simp
  have "t = pre @ m @ rev q" using pre(1) u by simp
  moreover have "lbrace \<notin> set pre" using pre(2) by blast
  moreover have "rbrace \<notin> set (rev q)" using q(2) by auto
  ultimately show ?thesis using hd last by blast
qed

lemma jsonMatch_None:
  "jsonMatch t = None \<longleftrightarrow> \<not> (\<exists>pre mid post. t = pre @ lbrace # mid @ rbrace # post)"
proof
  assume n: "jsonMatch t = None"
  show "\<not> (\<exists>pre mid post. t = pre @ lbrace # mid @ rbrace # post)"
  proof
    assume "\<exists>pre mid post. t = pre @ lbrace # mid @ rbrace # post"
    then obtain pre mid post where t: "t = pre @ lbrace # mid @ rbrace # post" by blast
    then have "lbrace \<in> set t" by simp
    then obtain a b where ab: "t = a @ lbrace # b" "lbrace \<notin> set a"
      by (meson split_list_first)
    have "rbrace \<in> set (lbrace # b)"
    proof -
      have "length a \<le> length pre"
      proof (rule ccontr)
        assume "\<not> length a \<le> length pre"
        then have "length pre < length a" by simp
        then have "a ! length pre = t ! length pre" using ab(1) by (simp add: nth_append)
        also have "\<dots> = lbrace" using t by simp
        finally show False using ab(2) \<open>length pre < length a\<close> by (metis nth_mem)
      qed
      then have "set (drop (length pre) t) \<subseteq> set (drop (length a) t)"
        by (rule set_drop_subset_set_drop)
      moreover have "drop (length a) t = lbrace # b"
        unfolding ab(1) by simp
      moreover have "drop (length pre) t = lbrace # mid @ rbrace # post"
        unfolding t by simp
      ultimately show ?thesis by auto
    qed
    moreover have "dropWhile (\<lambda>c. c \<noteq> lbrace) t = lbrace # b"
    proof -
      have "\<forall>x\<in>set a. x \<noteq> lbrace" using ab(2) by blast
      then show ?thesis unfolding ab(1) by (simp add: dropWhile_append3)
    qed
    ultimately have "dropWhile (\<lambda>c. c \<noteq> rbrace) (rev (dropWhile (\<lambda>c. c \<noteq> lbrace) t)) \<noteq> []"
      by (auto simp: dropWhile_eq_Nil_conv)
    then show False using n by (auto simp: jsonMatch_def Let_def split: if_splits)
  qed
next
  assume "\<not> (\<exists>pre mid post. t = pre @ lbrace # mid @ rbrace # post)"
  show "jsonMatch t = None"
  proof (rule ccontr)
    assume "jsonMatch t \<noteq> None"
    then obtain m where m: "jsonMatch t = Some m" by auto
    then obtain pre post where p: "t = pre @ m @ post" "hd m = lbrace" "last m = rbrace"
      using jsonMatch_Some by blast
    have "m \<noteq> []" using m by (auto simp: jsonMatch_def Let_def split: if_splits)
    have ne: "lbrace \<noteq> rbrace" by (simp add: lbrace_def rbrace_def)
    obtain ys where ys: "m = ys @ [rbrace]"
      using \<open>m \<noteq> []\<close> p(3) by (metis append_butlast_last_id)
    have "ys \<noteq> []"
    proof
      assume "ys = []"
      then have "hd m = rbrace" using ys by simp
      then show False using p(2) ne by simp
    qed
    then obtain y mid where ymid: "ys = y # mid" by (cases ys) auto
    then have "y = lbrace" using p(2) ys by simp
    then have "m = lbrace # mid @ [rbrace]" using ys ymid by simp
    then have "t = pre @ lbrace # mid @ rbrace # post" using p(1) by simp
    then show False using \<open>\<not> (\<exists>pre mid post. t = pre @ lbrace # mid @ rbrace # post)\<close> by blast
  qed
qed

lemma extractChart_plain_cases:
  "extractChart P t = plain t \<or>
   (\<exists>m p c. jsonMatch t = Some m \<and> P (cleanJson m) = Some p \<and>
      get_prop p (str ''chart'') = Some c \<and> truthy c \<and>
      extractChart P t = \<lparr>textOf =
         (case get_prop p (str ''message'') of None \<Rightarrow> fallbackText t
          | Some v \<Rightarrow> if truthy v then v else fallbackText t), chartData = Some c\<rparr>)"
  by (auto simp: extractChart_def tryChart_def split: option.splits json.splits)

lemma extractChart_no_match: "jsonMatch t = None \<Longrightarrow> extractChart P t = plain t"
  by (simp add: extractChart_def)

lemma extractChart_malformed:
  "jsonMatch t = Some m \<Longrightarrow> P (cleanJson m) = None \<Longrightarrow> extractChart P t = plain t"
  by (simp add: extractChart_def tryChart_def)

lemma extractChart_no_chart:
  "jsonMatch t = Some m \<Longrightarrow> P (cleanJson m) = Some p \<Longrightarrow>
   \<forall>c. get_prop p (str ''chart'') = Some c \<longrightarrow> \<not> truthy c \<Longrightarrow> extractChart P t = plain t"
  by (auto simp: extractChart_def tryChart_def split: option.splits json.splits)

lemma extractChart_chart:
  "jsonMatch t = Some m \<Longrightarrow> P (cleanJson m) = Some p \<Longrightarrow>
   get_prop p (str ''chart'') = Some c \<Longrightarrow> truthy c \<Longrightarrow>
   extractChart P t = \<lparr>textOf =
         (case get_prop p (str ''message'') of None \<Rightarrow> fallbackText t
          | Some v \<Rightarrow> if truthy v then v else fallbackText t), chartData = Some c\<rparr>"
  by (cases p) (auto simp: extractChart_def tryChart_def split: option.splits)

lemma extractChart_None_plain:
  "chartData (extractChart P t) = None \<Longrightarrow> extractChart P t = plain t"
  using extractChart_plain_cases [of P t] by auto

text \<open>
  C5 (as amended). \<open>extractChart\<close> is a total function: it returns on every text and
  for every behaviour of \<open>JSON.parse\<close>. Without a brace-delimited substring (a \<open>{\<close> with
  a \<open>}\<close> behind it), or when the cleaned match is malformed, or when the parsed value
  has no truthy \<open>chart\<close> (none, or \<open>null\<close>, \<open>false\<close>, \<open>0\<close>, \<open>""\<close>), the result is the
  original text and no chart. With a truthy \<open>chart\<close> the result is that chart, and the
  display text is the \<open>message\<close> field if it is truthy, else the placeholder when the
  original text contains three backticks, else the original text. The match runs from
  the first \<open>{\<close> to the last \<open>}\<close>.
\<close>

theorem C5_chart_extraction:
  "(jsonMatch t = None \<longrightarrow> extractChart P t = plain t) \<and>
   (\<forall>m. jsonMatch t = Some m \<and> P (cleanJson m) = None \<longrightarrow> extractChart P t = plain t) \<and>
   (\<forall>m p. jsonMatch t = Some m \<and> P (cleanJson m) = Some p \<and>
      (\<forall>c. get_prop p (str ''chart'') = Some c \<longrightarrow> \<not> truthy c) \<longrightarrow>
      extractChart P t = plain t) \<and>
   (\<forall>m p c. jsonMatch t = Some m \<and> P (cleanJson m) = Some p \<and>
      get_prop p (str ''chart'') = Some c \<and> truthy c \<longrightarrow>
      chartData (extractChart P t) = Some c \<and>
      textOf (extractChart P t) =
        (case get_prop p (str ''message'') of None \<Rightarrow> fallbackText t
         | Some v \<Rightarrow> if truthy v then v else fallbackText t)) \<and>
   fallbackText t = (if sublist fence t then JStr placeholder else JStr t) \<and>
   plain t = \<lparr>textOf = JStr t, chartData = None\<rparr> \<and>
   (jsonMatch t = None) = (\<not> (\<exists>pre mid post. t = pre @ lbrace # mid @ rbrace # post)) \<and>
   (\<forall>m. jsonMatch t = Some m \<longrightarrow>
      (\<exists>pre post. t = pre @ m @ post \<and> lbrace \<notin> set pre \<and> rbrace \<notin> set post \<and>
         hd m = lbrace \<and> last m = rbrace)) \<and>
   (chartData (extractChart P t) = None \<longrightarrow> extractChart P t = plain t)"
proof -
  have 1: "jsonMatch t = None \<longrightarrow> extractChart P t = plain t"
    using extractChart_no_match by blast
  have 2: "\<forall>m. jsonMatch t = Some m \<and> P (cleanJson m) = None \<longrightarrow> extractChart P t = plain t"
    using extractChart_malformed by blast
  have 3: "\<forall>m p. jsonMatch t = Some m \<and> P (cleanJson m) = Some p \<and>
      (\<forall>c. get_prop p (str ''chart'') = Some c \<longrightarrow> \<not> truthy c) \<longrightarrow>
      extractChart P t = plain t"
    using extractChart_no_chart by blast
  have 4: "\<forall>m p c. jsonMatch t = Some m \<and> P (cleanJson m) = Some p \<and>
      get_prop p (str ''chart'') = Some c \<and> truthy c \<longrightarrow>
      chartData (extractChart P t) = Some c \<and>
      textOf (extractChart P t) =
        (case get_prop p (str ''message'') of None \<Rightarrow> fallbackText t
         | Some v \<Rightarrow> if truthy v then v else fallbackText t)"
    using extractChart_chart [of t _ P] by fastforce
  have 5: "fallbackText t = (if sublist fence t then JStr placeholder else JStr t)"
    by (simp add: fallbackText_def js_includes_sublist)
  have 6: "plain t = \<lparr>textOf = JStr t, chartData = None\<rparr>"
    by (simp add: plain_def)
  have 7: "(jsonMatch t = None) = (\<not> (\<exists>pre mid post. t = pre @ lbrace # mid @ rbrace # post))"
    by (rule jsonMatch_None)
  have 8: "\<forall>m. jsonMatch t = Some m \<longrightarrow>
      (\<exists>pre post. t = pre @ m @ post \<and> lbrace \<notin> set pre \<and> rbrace \<notin> set post \<and>
         hd m = lbrace \<and> last m = rbrace)"
    using jsonMatch_Some by blast
  have 9: "chartData (extractChart P t) = None \<longrightarrow> extractChart P t = plain t"
    using extractChart_None_plain by blast
  show ?thesis using 1 2 3 4 5 6 7 8 9 by (intro conjI)
qed

lemma match_textBroken: "jsonMatch textBroken = Some (str ''{abc}'')"
  by (simp add: jsonMatch_def textBroken_def str_def lbrace_def rbrace_def)

lemma match_textBar: "jsonMatch textBar = Some (drop 11 textBar)"
  by (simp add: jsonMatch_def textBar_def str_def dq_def lbrace_def rbrace_def)

lemma match_textFenced: "jsonMatch textFenced = Some (drop 11 textBar)"
  by (simp add: jsonMatch_def textFenced_def textBar_def fence_def str_def dq_def lbrace_def rbrace_def)

lemma match_textChartZero: "jsonMatch textChartZero = Some textChartZero"
  by (simp add: jsonMatch_def textChartZero_def str_def dq_def lbrace_def rbrace_def)

lemma match_textEmptyMessage: "jsonMatch textEmptyMessage = Some textEmptyMessage"
  by (simp add: jsonMatch_def textEmptyMessage_def str_def dq_def lbrace_def rbrace_def)

lemma clean_textBar: "cleanJson (drop 11 textBar) = drop 11 textBar"
  by (simp add: cleanJson_def textBar_def fence_def str_def dq_def)

lemma clean_textBroken: "cleanJson (str ''{abc}'') = str ''{abc}''"
  by (simp add: cleanJson_def fence_def str_def)

lemma clean_textChartZero: "cleanJson textChartZero = textChartZero"
  by (simp add: cleanJson_def textChartZero_def fence_def str_def dq_def)

lemma clean_textEmptyMessage: "cleanJson textEmptyMessage = textEmptyMessage"
  by (simp add: cleanJson_def textEmptyMessage_def fence_def str_def dq_def)

lemma parse_textBar: "parseTable (drop 11 textBar) = Some (JObj [(str ''chart'', chartBar)])"
  by (simp add: parseTable_def textBar_def textChartZero_def textEmptyMessage_def str_def dq_def)

lemma parse_textBroken: "parseTable (str ''{abc}'') = None"
  by (simp add: parseTable_def textBar_def textChartZero_def textEmptyMessage_def str_def dq_def)

lemma parse_textChartZero:
  "parseTable textChartZero
     = Some (JObj [(str ''chart'', JNum 0), (str ''message'', JStr (str ''ok''))])"
  by (simp add: parseTable_def)

lemma parse_textEmptyMessage:
  "parseTable textEmptyMessage = Some (JObj [(str ''chart'', chartBar), (str ''message'', JStr [])])"
  by (simp add: parseTable_def textBar_def textChartZero_def textEmptyMessage_def str_def dq_def)

lemma props_bar:
  "get_prop (JObj [(str ''chart'', chartBar)]) (str ''chart'') = Some chartBar"
  "get_prop (JObj [(str ''chart'', chartBar)]) (str ''message'') = None"
  "truthy chartBar"
  by (simp_all add: str_def chartBar_def)

lemma message_not_chart: "str ''message'' \<noteq> str ''chart''"
  by (simp add: str_def)

lemma fallback_texts:
  "fallbackText textBar = JStr textBar" "fallbackText textFenced = JStr placeholder"
  "fallbackText textEmptyMessage = JStr textEmptyMessage"
  by (simp_all add: fallbackText_def textBar_def textFenced_def textEmptyMessage_def fence_def
      str_def dq_def)

theorem C5_witness:
  "jsonMatch (str ''Sem dados'') = None \<and>
   extractChart parseTable (str ''Sem dados'') = plain (str ''Sem dados'') \<and>
   jsonMatch textBroken = Some (str ''{abc}'') \<and> parseTable (cleanJson (str ''{abc}'')) = None \<and>
   extractChart parseTable textBroken = plain textBroken \<and>
   extractChart parseTable textBar = \<lparr>textOf = JStr textBar, chartData = Some chartBar\<rparr> \<and>
   extractChart parseTable textFenced = \<lparr>textOf = JStr placeholder, chartData = Some chartBar\<rparr>"
proof -
  have none: "jsonMatch (str ''Sem dados'') = None"
    by (simp add: jsonMatch_def str_def lbrace_def rbrace_def)
  have a: "extractChart parseTable (str ''Sem dados'') = plain (str ''Sem dados'')"
    using C5_chart_extraction [of "str ''Sem dados''" parseTable] none by blast
  have b: "extractChart parseTable textBroken = plain textBroken"
    using C5_chart_extraction [of textBroken parseTable] match_textBroken
      parse_textBroken clean_textBroken by simp
  have c: "chartData (extractChart parseTable textBar) = Some chartBar \<and>
      textOf (extractChart parseTable textBar) = JStr textBar"
    using C5_chart_extraction [of textBar parseTable, THEN conjunct2, THEN conjunct2,
        THEN conjunct2, THEN conjunct1, rule_format,
        of "drop 11 textBar" "JObj [(str ''chart'', chartBar)]" chartBar]
    by (simp add: match_textBar clean_textBar parse_textBar props_bar fallback_texts message_not_chart)
  have d: "chartData (extractChart parseTable textFenced) = Some chartBar \<and>
      textOf (extractChart parseTable textFenced) = JStr placeholder"
    using C5_chart_extraction [of textFenced parseTable, THEN conjunct2, THEN conjunct2,
        THEN conjunct2, THEN conjunct1, rule_format,
        of "drop 11 textBar" "JObj [(str ''chart'', chartBar)]" chartBar]
    by (simp add: match_textFenced clean_textBar parse_textBar props_bar fallback_texts message_not_chart)
  have e: "r = \<lparr>textOf = textOf r, chartData = chartData r\<rparr>" for r :: chart_result
    by simp
  show ?thesis
    using none a b c d match_textBroken parse_textBroken clean_textBroken
      e [of "extractChart parseTable textBar"] e [of "extractChart parseTable textFenced"]
    by simp
qed

text \<open>
  C5 as the claim words it asks for a \<open>chart\<close> field and a present \<open>message\<close>. On the
  text \<open>{"chart":0,"message":"ok"}\<close> the code returns the text itself and no chart; on
  \<open>{"chart":{"type":"bar"},"message":""}\<close> it returns the chart with the original text,
  not the empty message.
\<close>

theorem C5_counterexample:
  "extractChart parseTable textChartZero = \<lparr>textOf = JStr textChartZero, chartData = None\<rparr> \<and>
   spec_extractChart parseTable textChartZero
     = \<lparr>textOf = JStr (str ''ok''), chartData = Some (JNum 0)\<rparr> \<and>
   extractChart parseTable textEmptyMessage
     = \<lparr>textOf = JStr textEmptyMessage, chartData = Some chartBar\<rparr> \<and>
   spec_extractChart parseTable textEmptyMessage
     = \<lparr>textOf = JStr [], chartData = Some chartBar\<rparr>"
proof -
  have "extractChart parseTable textChartZero = \<lparr>textOf = JStr textChartZero, chartData = None\<rparr>"
    unfolding extractChart_def tryChart_def match_textChartZero
    by (simp add: clean_textChartZero parse_textChartZero plain_def str_def)
  moreover have "spec_extractChart parseTable textChartZero
     = \<lparr>textOf = JStr (str ''ok''), chartData = Some (JNum 0)\<rparr>"
    unfolding spec_extractChart_def match_textChartZero
    by (simp add: clean_textChartZero parse_textChartZero str_def)
  moreover have "extractChart parseTable textEmptyMessage
     = \<lparr>textOf = JStr textEmptyMessage, chartData = Some chartBar\<rparr>"
    unfolding extractChart_def tryChart_def match_textEmptyMessage
    by (simp add: clean_textEmptyMessage parse_textEmptyMessage fallback_texts chartBar_def str_def)
  moreover have "spec_extractChart parseTable textEmptyMessage
     = \<lparr>textOf = JStr [], chartData = Some chartBar\<rparr>"
    unfolding spec_extractChart_def match_textEmptyMessage
    by (simp add: clean_textEmptyMessage parse_textEmptyMessage str_def)
  ultimately show ?thesis by simp
qed

section \<open>Facts about the store and the handlers\<close>

lemma findIndex_None: "findIndex P xs = None \<longleftrightarrow> (\<forall>x\<in>set xs. \<not> P x)"
  by (induction xs) auto

lemma findIndex_Some:
  "findIndex P xs = Some i \<Longrightarrow> i < length xs \<and> P (xs ! i) \<and> (\<forall>j<i. \<not> P (xs ! j))"
proof (induction xs arbitrary: i)
  case Nil
  then show ?case by simp
next
  case (Cons x xs)
  show ?case
  proof (cases "P x")
    case True
    with Cons.prems show ?thesis by simp
  next
    case False
    with Cons.prems obtain k where k: "findIndex P xs = Some k" "i = Suc k" by auto
    from Cons.IH [OF k(1)] False k(2) show ?thesis
      by (auto simp: nth_Cons split: nat.splits)
  qed
qed


lemma deleteFile_absent:
  assumes "i \<notin> idF ` set (readDb s)"
  shows "deleteFile e i s = (\<lparr>statusCode = 200, body = SuccessBody\<rparr>, s)"
proof -
  have "findIndex (\<lambda>f. idF f = i) (readDb s) = None"
    using assms by (auto simp: findIndex_None)
  then show ?thesis by (simp add: deleteFile_def)
qed


lemma deleteFile_present_cache:
  assumes "i \<in> idF ` set (readDb s)"
  shows "appCache (snd (deleteFile e i s)) = Map.empty \<and>
         journal (snd (deleteFile e i s)) \<noteq> [] \<and> last (journal (snd (deleteFile e i s))) = CacheFlush"
proof -
  obtain k where "findIndex (\<lambda>f. idF f = i) (readDb s) = Some k"
    using assms findIndex_None [of "\<lambda>f. idF f = i" "readDb s"] by (cases "findIndex (\<lambda>f. idF f = i) (readDb s)") auto
  then show ?thesis by (simp add: deleteFile_def Let_def flushAll_def)
qed

lemma journal_deleteFile_flush:
  assumes "CacheFlush \<in> set (journal (snd (deleteFile e i s)))" "CacheFlush \<notin> set (journal s)"
  shows "i \<in> idF ` set (readDb s)"
proof (rule ccontr)
  assume "i \<notin> idF ` set (readDb s)"
  then have "snd (deleteFile e i s) = s" by (simp add: deleteFile_absent)
  then show False using assms by simp
qed

lemma readDb_simps [simp]:
  "readDb (flushAll s) = readDb s"
  "readDb (unlink e p s) = readDb s"
  "readDb (writeDb e fs s) = (if writeOk e then fs else readDb s)"
  "readDb (s\<lparr>disk := d\<rparr>) = readDb s"
  by (simp_all add: readDb_def flushAll_def unlink_def writeDb_def)

lemma upload_stored:
  assumes "fileOfReq req = Some f" "fieldsOf (metadataOfReq req) = Some md"
  shows "upload l x e req s =
     (\<lparr>statusCode = 200,
       body = UploadBody (FileMeta.truncate
         (newFile x e f md (extractText l x (reader e) (storedPath f) (mimetype f) (originalname f))))\<rparr>,
      flushAll (writeDb e
        (readDb s @ [newFile x e f md
           (extractText l x (reader e) (storedPath f) (mimetype f) (originalname f))])
        (s\<lparr>disk := insert (storedPath f) (disk s)\<rparr>)))"
  using assms by (simp add: upload_def Let_def)



lemma ext_distinct:
  "str ''.csv'' \<noteq> str ''.xlsx''" "str ''.csv'' \<noteq> str ''.xls''" "str ''.csv'' \<noteq> str ''.docx''"
  "str ''.csv'' \<noteq> str ''.pdf''" "str ''.txt'' \<noteq> str ''.xlsx''" "str ''.txt'' \<noteq> str ''.xls''"
  "str ''.txt'' \<noteq> str ''.docx''" "str ''.txt'' \<noteq> str ''.pdf''" "str ''.json'' \<noteq> str ''.xlsx''"
  "str ''.json'' \<noteq> str ''.xls''" "str ''.json'' \<noteq> str ''.docx''" "str ''.json'' \<noteq> str ''.pdf''"
  "str ''.xlsx'' \<noteq> str ''.docx''" "str ''.xlsx'' \<noteq> str ''.pdf''" "str ''.xls'' \<noteq> str ''.docx''"
  "str ''.xls'' \<noteq> str ''.pdf''" "str ''.docx'' \<noteq> str ''.pdf''"
  "str ''.xlsx'' \<noteq> str ''.csv''" "str ''.xlsx'' \<noteq> str ''.txt''" "str ''.xlsx'' \<noteq> str ''.json''"
  "str ''.xls'' \<noteq> str ''.csv''" "str ''.xls'' \<noteq> str ''.txt''" "str ''.xls'' \<noteq> str ''.json''"
  "str ''.docx'' \<noteq> str ''.csv''" "str ''.docx'' \<noteq> str ''.txt''" "str ''.docx'' \<noteq> str ''.json''"
  "str ''.docx'' \<noteq> str ''.xlsx''" "str ''.docx'' \<noteq> str ''.xls''"
  "str ''.pdf'' \<noteq> str ''.csv''" "str ''.pdf'' \<noteq> str ''.txt''" "str ''.pdf'' \<noteq> str ''.json''"
  "str ''.pdf'' \<noteq> str ''.xlsx''" "str ''.pdf'' \<noteq> str ''.xls''" "str ''.pdf'' \<noteq> str ''.docx''"
  by (simp_all add: str_def)

lemma extractText_unsupported:
  assumes "l (x nm) \<notin> set (map str [''.csv'', ''.txt'', ''.json'', ''.xlsx'', ''.xls'', ''.docx'', ''.pdf''])"
  shows "extractText l x rd p mt nm = []"
  using assms by (simp add: extractText_def Let_def)

lemma extractText_text_fails:
  assumes "l (x nm) \<in> set (map str [''.csv'', ''.txt'', ''.json''])" "readText rd p = Inl msg"
  shows "extractText l x rd p mt nm = readError msg"
  using assms by (auto simp: extractText_def Let_def)

lemma extractText_xlsx_fails:
  assumes "l (x nm) \<in> set (map str [''.xlsx'', ''.xls''])" "readXlsx rd p = Inl msg"
  shows "extractText l x rd p mt nm = readError msg"
  using assms by (auto simp: extractText_def Let_def ext_distinct)

lemma extractText_docx_fails:
  assumes "l (x nm) = str ''.docx''" "readDocx rd p = Inl msg"
  shows "extractText l x rd p mt nm = readError msg"
  using assms by (simp add: extractText_def Let_def ext_distinct)

lemma extractText_pdf_fails:
  assumes "l (x nm) = str ''.pdf''" "readPdf rd p = Inl msg"
  shows "extractText l x rd p mt nm = readError msg"
  using assms by (simp add: extractText_def Let_def ext_distinct)

lemma ext_examples:
  "lowerCase (extnameOf (str ''arquivo.zip'')) = str ''.zip''"
  "lowerCase (extnameOf (str ''planilha.XLSX'')) = str ''.xlsx''"
  "lowerCase (extnameOf (str ''dados.CSV'')) = str ''.csv''"
  by (simp_all add: extnameOf_def lowerCase_def lowerChar_def str_def dot_def Let_def)

lemma zip_unsupported:
  "str ''.zip'' \<notin> set (map str [''.csv'', ''.txt'', ''.json'', ''.xlsx'', ''.xls'', ''.docx'', ''.pdf''])"
  by (simp add: str_def)


lemma ask_no_key:
  "apiKey e = None \<or> apiKey e = Some [] \<Longrightarrow>
   ask l e req s = (\<lparr>statusCode = 500, body = ErrorBody (str ''Server API Key missing'')\<rparr>, s)"
  by (simp add: ask_def)

lemma ask_hit:
  "apiKey e \<noteq> None \<Longrightarrow> apiKey e \<noteq> Some [] \<Longrightarrow> cachedResponse e s req = Some t \<Longrightarrow>
   ask l e req s = (\<lparr>statusCode = 200, body = StreamBody [t]\<rparr>, s)"
  by (simp add: ask_def)

lemma ask_miss_fails:
  "apiKey e \<noteq> None \<Longrightarrow> apiKey e \<noteq> Some [] \<Longrightarrow> cachedResponse e s req = None \<Longrightarrow>
   failure (model e) = Some err \<Longrightarrow>
   ask l e req s =
     (\<lparr>statusCode = 200,
       body = StreamBody (filter (\<lambda>c. c \<noteq> []) (chunks (model e)) @ [apology err])\<rparr>,
      s\<lparr>journal := journal s @ [ModelCall (selectContext l (messageOf req) (readDb s))
           (chatHistory (historyOf req) @ [(str ''user'', messageOf req)])]\<rparr>)"
  by (simp add: ask_def Let_def)

lemma concat_filter_nonempty: "concat (filter (\<lambda>c. c \<noteq> []) xs) = concat xs"
  by (induction xs) auto

lemma ask_miss_ok:
  "apiKey e \<noteq> None \<Longrightarrow> apiKey e \<noteq> Some [] \<Longrightarrow> cachedResponse e s req = None \<Longrightarrow>
   failure (model e) = None \<Longrightarrow>
   ask l e req s =
     (\<lparr>statusCode = 200, body = StreamBody (filter (\<lambda>c. c \<noteq> []) (chunks (model e)))\<rparr>,
      (if concat (chunks (model e)) \<noteq> []
       then s\<lparr>journal := journal s @ [ModelCall (selectContext l (messageOf req) (readDb s))
                (chatHistory (historyOf req) @ [(str ''user'', messageOf req)])],
              appCache := cache_set (finished e) (appCache s) (cacheKey req)
                (concat (chunks (model e)))\<rparr>
       else s\<lparr>journal := journal s @ [ModelCall (selectContext l (messageOf req) (readDb s))
                (chatHistory (historyOf req) @ [(str ''user'', messageOf req)])]\<rparr>))"
  by (auto simp: ask_def Let_def concat_filter_nonempty)

lemma apology_cases: "apology err = rateLimitText \<or> apology err = genericErrorText"
  by (simp add: apology_def)

lemma apology_429: "errStatus err = Some 429 \<Longrightarrow> apology err = rateLimitText"
  by (simp add: apology_def isRateLimit_def)

lemma ask_status:
  "statusCode (fst (ask l e req s)) = (if apiKey e = None \<or> apiKey e = Some [] then 500 else 200)"
  by (auto simp: ask_def Let_def split: option.splits)

lemma cacheKey_cong:
  "messageOf req' = messageOf req \<Longrightarrow> length (historyOf req') = length (historyOf req) \<Longrightarrow>
   cacheKey req' = cacheKey req"
  by (simp add: cacheKey_def)

lemma cachedResponse_after_set:
  assumes "t \<noteq> []" "now e2 \<le> t0 + 3600000" "cacheKey req' = k"
  shows "cachedResponse e2 (s\<lparr>appCache := cache_set t0 c k t\<rparr>) req' = Some t"
  using assms by (simp add: cachedResponse_def cache_get_def cache_set_def stdTTL_def)

lemma cachedResponse_later:
  assumes "cachedResponse e s req = None" "now e \<le> now e2" "cacheKey req' = cacheKey req"
  shows "cachedResponse e2 s req' = None"
  using assms
  by (auto simp: cachedResponse_def cache_get_def split: option.splits prod.splits if_splits)

lemma cachedResponse_journal:
  "cachedResponse e (s\<lparr>journal := j\<rparr>) req = cachedResponse e s req"
  by (simp add: cachedResponse_def)

lemma cachedResponse_empty: "appCache s = Map.empty \<Longrightarrow> cachedResponse e s req = None"
  by (simp add: cachedResponse_def cache_get_def)

lemma upload_flushes:
  "fileOfReq req = Some f \<Longrightarrow> fieldsOf (metadataOfReq req) = Some md \<Longrightarrow>
   appCache (snd (upload l x e req s)) = Map.empty"
  by (simp add: upload_def Let_def flushAll_def)

lemma replay_many:
  assumes "\<forall>e\<in>set es. ask l e req' s1 = (r, s1)"
  shows "foldl (\<lambda>st e. snd (ask l e req' st)) s1 es = s1"
  using assms by (induction es) auto

lemma env0_facts:
  "apiKey env0 \<noteq> None" "apiKey env0 \<noteq> Some []" "failure (model env0) = None"
  "concat (chunks (model env0)) = str ''A taxa caiu.''" "finished env0 = 2000"
  "chunks (model env0) = [str ''A taxa '', [], str ''caiu.'']" "writeOk env0"
  by (simp_all add: env0_def model0_def str_def)

lemma envLater_facts:
  "apiKey envLater \<noteq> None" "apiKey envLater \<noteq> Some []" "failure (model envLater) = None"
  "concat (chunks (model envLater)) = str ''A taxa caiu.''" "now envLater = 5000"
  "chunks (model envLater) = [str ''A taxa '', [], str ''caiu.'']" "finished envLater = 6000"
  by (simp_all add: envLater_def env0_def model0_def str_def)

lemma envQuota_facts:
  "apiKey envQuota \<noteq> None" "apiKey envQuota \<noteq> Some []"
  "failure (model envQuota) = Some \<lparr>errStatus = Some 429, errMessage = None\<rparr>"
  "chunks (model envQuota) = [str ''A taxa '']" "finished envQuota = 2000"
  by (simp_all add: envQuota_def env0_def str_def)

lemma server0_miss: "cachedResponse e server0 req = None"
  by (simp add: cachedResponse_empty server0_def)

lemma nonempty_answer: "str ''A taxa caiu.'' \<noteq> []"
  by (simp add: str_def)


section \<open>C6: extraction never fails the upload\<close>

text \<open>
  C6. \<open>extractText\<close> decides on the lowercased extension. An extension outside
  \<open>.csv\<close>, \<open>.txt\<close>, \<open>.json\<close>, \<open>.xlsx\<close>, \<open>.xls\<close>, \<open>.docx\<close>, \<open>.pdf\<close> gives the empty
  string. On a supported extension an error of the reader with the message \<open>msg\<close> gives
  the text \<open>Erro ao ler arquivo: msg\<close>. Whatever the extraction gives, an upload that
  carries a file (and whose metadata is not the JSON \<open>null\<close>) answers 200 with the file
  record, and, the write of the store succeeding, the collection gains the record whose
  content is the extracted text.
\<close>

theorem C6_extraction_never_fails_the_upload:
  "(l (x nm) \<notin> set (map str [''.csv'', ''.txt'', ''.json'', ''.xlsx'', ''.xls'', ''.docx'', ''.pdf''])
      \<longrightarrow> extractText l x rd p mt nm = []) \<and>
   (\<forall>msg. l (x nm) \<in> set (map str [''.csv'', ''.txt'', ''.json'']) \<and> readText rd p = Inl msg
      \<longrightarrow> extractText l x rd p mt nm = str ''Erro ao ler arquivo: '' @ msg) \<and>
   (\<forall>msg. l (x nm) \<in> set (map str [''.xlsx'', ''.xls'']) \<and> readXlsx rd p = Inl msg
      \<longrightarrow> extractText l x rd p mt nm = str ''Erro ao ler arquivo: '' @ msg) \<and>
   (\<forall>msg. l (x nm) = str ''.docx'' \<and> readDocx rd p = Inl msg
      \<longrightarrow> extractText l x rd p mt nm = str ''Erro ao ler arquivo: '' @ msg) \<and>
   (\<forall>msg. l (x nm) = str ''.pdf'' \<and> readPdf rd p = Inl msg
      \<longrightarrow> extractText l x rd p mt nm = str ''Erro ao ler arquivo: '' @ msg) \<and>
   (\<forall>f md. fileOfReq req = Some f \<and> fieldsOf (metadataOfReq req) = Some md \<longrightarrow>
      (\<exists>m. fst (upload l x e req s) = \<lparr>statusCode = 200, body = UploadBody m\<rparr>) \<and>
      (writeOk e \<longrightarrow>
         readDb (snd (upload l x e req s))
           = readDb s @ [newFile x e f md
               (extractText l x (reader e) (storedPath f) (mimetype f) (originalname f))])) \<and>
   content (newFile x e f' md' t) = t"
proof -
  have up: "\<forall>f md. fileOfReq req = Some f \<and> fieldsOf (metadataOfReq req) = Some md \<longrightarrow>
      (\<exists>m. fst (upload l x e req s) = \<lparr>statusCode = 200, body = UploadBody m\<rparr>) \<and>
      (writeOk e \<longrightarrow>
         readDb (snd (upload l x e req s))
           = readDb s @ [newFile x e f md
               (extractText l x (reader e) (storedPath f) (mimetype f) (originalname f))])"
    by (simp add: upload_stored)
  have c: "content (newFile x e f' md' t) = t" by (simp add: newFile_def)
  show ?thesis
    using extractText_unsupported [of l x nm rd p mt] extractText_text_fails [of l x nm rd p _ mt]
      extractText_xlsx_fails [of l x nm rd p _ mt] extractText_docx_fails [of l x nm rd p _ mt]
      extractText_pdf_fails [of l x nm rd p _ mt] up c
    unfolding readError_def by (intro conjI) blast+
qed

theorem C6_witness:
  "lowerCase (extnameOf (originalname uploadedZip)) = str ''.zip'' \<and>
   extractText lowerCase extnameOf readers0 (storedPath uploadedZip) (mimetype uploadedZip)
     (originalname uploadedZip) = [] \<and>
   fileOfReq uploadZip = Some uploadedZip \<and> fieldsOf (metadataOfReq uploadZip) = Some noFields \<and>
   statusCode (fst (upload lowerCase extnameOf env0 uploadZip server0)) = 200 \<and>
   map content (readDb (snd (upload lowerCase extnameOf env0 uploadZip server0))) = [[]] \<and>
   lowerCase (extnameOf (originalname uploadedXlsx)) = str ''.xlsx'' \<and>
   readXlsx readers0 (storedPath uploadedXlsx) = Inl (str ''bad zip'') \<and>
   statusCode (fst (upload lowerCase extnameOf env0 uploadXlsx server0)) = 200 \<and>
   map content (readDb (snd (upload lowerCase extnameOf env0 uploadXlsx server0)))
     = [str ''Erro ao ler arquivo: bad zip'']"
proof -
  note c6zip = C6_extraction_never_fails_the_upload [of lowerCase extnameOf "originalname uploadedZip"
      readers0 "storedPath uploadedZip" "mimetype uploadedZip" uploadZip env0 server0]
  note c6xlsx = C6_extraction_never_fails_the_upload [of lowerCase extnameOf "originalname uploadedXlsx"
      readers0 "storedPath uploadedXlsx" "mimetype uploadedXlsx" uploadXlsx env0 server0]
  have ez: "lowerCase (extnameOf (originalname uploadedZip)) = str ''.zip''"
    by (simp add: uploadedZip_def ext_examples)
  have ex: "lowerCase (extnameOf (originalname uploadedXlsx)) = str ''.xlsx''"
    by (simp add: uploadedXlsx_def ext_examples)
  have tz: "extractText lowerCase extnameOf readers0 (storedPath uploadedZip) (mimetype uploadedZip)
     (originalname uploadedZip) = []"
    using c6zip zip_unsupported unfolding ez by blast
  have rx: "readXlsx readers0 (storedPath uploadedXlsx) = Inl (str ''bad zip'')"
    by (simp add: readers0_def)
  have "str ''.xlsx'' \<in> set (map str [''.xlsx'', ''.xls''])" by simp
  then have tx: "extractText lowerCase extnameOf readers0 (storedPath uploadedXlsx)
     (mimetype uploadedXlsx) (originalname uploadedXlsx) = str ''Erro ao ler arquivo: '' @ str ''bad zip''"
    using c6xlsx rx unfolding ex by blast
  have fz: "fileOfReq uploadZip = Some uploadedZip \<and> fieldsOf (metadataOfReq uploadZip) = Some noFields"
    by (simp add: uploadZip_def)
  have fx: "fileOfReq uploadXlsx = Some uploadedXlsx \<and> fieldsOf (metadataOfReq uploadXlsx) = Some noFields"
    by (simp add: uploadXlsx_def)
  have e0: "writeOk env0" "reader env0 = readers0" "readDb server0 = []"
    by (simp_all add: env0_def server0_def readDb_def)
  have uz: "statusCode (fst (upload lowerCase extnameOf env0 uploadZip server0)) = 200 \<and>
     map content (readDb (snd (upload lowerCase extnameOf env0 uploadZip server0))) = [[]]"
    using c6zip fz e0 tz by (auto simp: newFile_def)
  have ux: "statusCode (fst (upload lowerCase extnameOf env0 uploadXlsx server0)) = 200 \<and>
     map content (readDb (snd (upload lowerCase extnameOf env0 uploadXlsx server0)))
       = [str ''Erro ao ler arquivo: bad zip'']"
    using c6xlsx fx e0 tx by (auto simp: newFile_def str_def)
  show ?thesis using ez ex tz rx fz uz ux by simp
qed


section \<open>C7: upload, list, delete\<close>




section \<open>C9: a query without keywords keeps the collection's order\<close>

lemma fileBlock_nonempty: "fileBlock f \<noteq> []"
  by (simp add: fileBlock_def str_def)

lemma packContext_prefix:
  "its \<noteq> [] \<Longrightarrow> cur + length (fileBlock (fileOf (hd its))) < limit \<Longrightarrow>
   prefix (sel @ fileBlock (fileOf (hd its))) (packContext limit its cur sel)"
proof (cases its)
  case Nil
  then show "its \<noteq> [] \<Longrightarrow> ?thesis" by simp
next
  case (Cons it rest)
  assume "cur + length (fileBlock (fileOf (hd its))) < limit"
  with Cons show ?thesis
    using packContext_take [of rest limit "cur + length (fileBlock (fileOf it))"
        "sel @ fileBlock (fileOf it)"]
    by (auto simp: Let_def)
qed

lemma sort_key_same:
  assumes "\<forall>x\<in>set xs. f x = k"
  shows "sort_key f xs = xs"
proof -
  have "filter (\<lambda>y. f y = k) (sort_key f xs) = sort_key f xs"
    using assms by (intro filter_True) simp
  moreover have "filter (\<lambda>y. f y = k) xs = xs"
    using assms by (intro filter_True) simp
  ultimately show ?thesis using sort_key_stable [of f k xs] by simp
qed

lemma no_keywords:
  assumes "\<forall>t\<in>set (js_split space (l m)). length t < 4"
  shows "keywords_of l m = []"
  using assms by (auto simp: keywords_of_def filter_empty_conv)

lemma sortedFiles_no_keywords:
  assumes "keywords_of l m = []"
  shows "sortedFiles l m fs = map (\<lambda>f. \<lparr>fileOf = f, score = 0\<rparr>) fs"
proof -
  have "sort_key (\<lambda>it. - score it) (map (\<lambda>f. \<lparr>fileOf = f, score = 0\<rparr>) fs)
      = map (\<lambda>f. \<lparr>fileOf = f, score = 0\<rparr>) fs"
    by (intro sort_key_same [where k = 0]) auto
  moreover have "scoreFile l [] = (\<lambda>f. \<lparr>fileOf = f, score = 0\<rparr>)"
    by (rule ext) (simp add: scoreFile_def)
  ultimately show ?thesis
    by (simp add: sortedFiles_def js_sort_sort_key assms)
qed

text \<open>
  C9 (as amended). When every space-separated token of the lowercased query is shorter
  than 4 code units, there is no keyword, every document scores 0, the sorted list is the
  collection in its own order, and the context is the blocks of the first \<open>n\<close>
  documents of the collection, for the \<open>n\<close> at which the next block would reach or
  exceed the limit. When the block of the first document is below the limit, the context
  starts with it and is not empty.
\<close>

theorem C9_no_keyword_keeps_insertion_order:
  assumes "\<forall>t\<in>set (js_split space (toLowerCase message)). length t < 4"
  shows "keywords_of toLowerCase message = [] \<and>
    sortedFiles toLowerCase message files = map (\<lambda>f. \<lparr>fileOf = f, score = 0\<rparr>) files \<and>
    (\<exists>n\<le>length files.
       selectContext toLowerCase message files = concat (map fileBlock (take n files)) \<and>
       (n < length files \<longrightarrow>
          MAX_CONTEXT_CHARS \<le> length (selectContext toLowerCase message files)
            + length (fileBlock (files ! n)))) \<and>
    (files \<noteq> [] \<and> length (fileBlock (hd files)) < MAX_CONTEXT_CHARS \<longrightarrow>
       prefix (fileBlock (hd files)) (selectContext toLowerCase message files) \<and>
       selectContext toLowerCase message files \<noteq> [])"
proof -
  let ?its = "map (\<lambda>f. \<lparr>fileOf = f, score = 0\<rparr>) files"
  have k: "keywords_of toLowerCase message = []"
    using assms by (rule no_keywords)
  have s: "sortedFiles toLowerCase message files = ?its"
    using k by (rule sortedFiles_no_keywords)
  obtain n where n: "n \<le> length ?its"
    "packContext MAX_CONTEXT_CHARS ?its 0 [] = [] @ concat (map (\<lambda>i. fileBlock (fileOf i)) (take n ?its))"
    "n < length ?its \<longrightarrow> MAX_CONTEXT_CHARS \<le> 0 + length (concat (map (\<lambda>i. fileBlock (fileOf i)) (take n ?its)))
        + length (fileBlock (fileOf (?its ! n)))"
    using packContext_take [of ?its MAX_CONTEXT_CHARS 0 "[]"] by blast
  have sel: "selectContext toLowerCase message files = concat (map fileBlock (take n files))"
    using n(2) by (simp add: selectContext_def s take_map comp_def)
  have ex: "\<exists>n\<le>length files.
       selectContext toLowerCase message files = concat (map fileBlock (take n files)) \<and>
       (n < length files \<longrightarrow>
          MAX_CONTEXT_CHARS \<le> length (selectContext toLowerCase message files)
            + length (fileBlock (files ! n)))"
    using n(1) n(3) sel by (intro exI [of _ n]) (simp add: take_map comp_def)
  have first: "prefix (fileBlock (hd files)) (selectContext toLowerCase message files) \<and>
       selectContext toLowerCase message files \<noteq> []"
    if "files \<noteq> []" "length (fileBlock (hd files)) < MAX_CONTEXT_CHARS"
  proof -
    have "prefix ([] @ fileBlock (fileOf (hd ?its))) (packContext MAX_CONTEXT_CHARS ?its 0 [])"
      using that by (intro packContext_prefix) (simp_all add: hd_map)
    then have p: "prefix (fileBlock (hd files)) (selectContext toLowerCase message files)"
      using that by (simp add: selectContext_def s hd_map)
    then show ?thesis using fileBlock_nonempty [of "hd files"] by auto
  qed
  show ?thesis using k s ex first by blast
qed

lemma tokens_queryShort:
  "js_split space (lowerCase queryShort) = [str ''e'', str ''o'', str ''pib'']"
  by (simp add: queryShort_def lowerCase_def lowerChar_def str_def space_def Let_def)

lemma length_blocks_fourFiles:
  "length (fileBlock docNotas) = 129" "length (fileBlock docSaude) = 149"
  "length (fileBlock docObras) = 129" "length (fileBlock docMortalidade) = 135"
  by (simp_all add: fileBlock_def contentSnippet_def docNotas_def docSaude_def docObras_def
      docMortalidade_def sampleFile_def length_str)

theorem C9_witness:
  "list_all (\<lambda>t. length t < 4) (js_split space (lowerCase queryShort)) \<and>
   keywords_of lowerCase queryShort = [] \<and>
   map fileOf (sortedFiles lowerCase queryShort fourFiles) = fourFiles \<and>
   selectContext lowerCase queryShort fourFiles = concat (map fileBlock fourFiles) \<and>
   fourFiles \<noteq> [] \<and> length (fileBlock (hd fourFiles)) < MAX_CONTEXT_CHARS \<and>
   selectContext lowerCase queryShort fourFiles \<noteq> []"
proof -
  have h: "\<forall>t\<in>set (js_split space (lowerCase queryShort)). length t < 4"
    by (simp add: tokens_queryShort length_str)
  note c9 = C9_no_keyword_keeps_insertion_order [of lowerCase queryShort fourFiles, OF h]
  have s: "sortedFiles lowerCase queryShort fourFiles
      = map (\<lambda>f. \<lparr>fileOf = f, score = 0\<rparr>) fourFiles"
    using c9 by blast
  have sel: "selectContext lowerCase queryShort fourFiles = concat (map fileBlock fourFiles)"
    unfolding selectContext_def s
    by (simp add: fourFiles_def length_blocks_fourFiles MAX_CONTEXT_CHARS_def Let_def)
  have first: "fourFiles \<noteq> [] \<and> length (fileBlock (hd fourFiles)) < MAX_CONTEXT_CHARS"
    by (simp add: fourFiles_def length_blocks_fourFiles MAX_CONTEXT_CHARS_def)
  then have "selectContext lowerCase queryShort fourFiles \<noteq> []"
    using c9 by blast
  then show ?thesis
    using c9 s sel first by (simp add: tokens_queryShort length_str comp_def)
qed

lemma keywords_queryI: "keywords_of lowerCase queryI = [[97, 98, 105, 775]]"
  by (simp add: keywords_of_def queryI_def lowerCase_def lowerChar_def space_def Let_def)

text \<open>
  C9 as the claim words it speaks of the tokens of the query itself. The query of the
  three code units \<open>a\<close>, \<open>b\<close>, U+0130 has one token of length 3; lowercasing turns it
  into the four code units \<open>a\<close>, \<open>b\<close>, \<open>i\<close>, U+0307, a keyword. The document of that
  name scores 10 and moves ahead of the one before it.
\<close>

theorem C9_counterexample:
  "js_split space queryI = [queryI] \<and> length queryI = 3 \<and>
   score (scoreFile lowerCase (keywords_of lowerCase queryI) docI) = 10 \<and>
   score (scoreFile lowerCase (keywords_of lowerCase queryI) docX) = 0 \<and>
   map fileOf (sortedFiles lowerCase queryI [docX, docI]) = [docI, docX]"
proof -
  have sc: "map (scoreFile lowerCase (keywords_of lowerCase queryI)) [docX, docI]
      = [\<lparr>fileOf = docX, score = 0\<rparr>, \<lparr>fileOf = docI, score = 10\<rparr>]"
    unfolding keywords_queryI
    by (simp add: scoreFile_def fullMeta_def docX_def docI_def sampleFile_def lowerCase_def
        lowerChar_def str_def space_def)
  have "sortedFiles lowerCase queryI [docX, docI]
      = [\<lparr>fileOf = docI, score = 10\<rparr>, \<lparr>fileOf = docX, score = 0\<rparr>]"
    unfolding sortedFiles_def sc by (simp add: js_sort_def byScore_def)
  moreover have "js_split space queryI = [queryI] \<and> length queryI = 3"
    by (simp add: queryI_def space_def Let_def)
  ultimately show ?thesis using sc by simp
qed

section \<open>C10: deleting an absent id\<close>

text \<open>
  C10. Deleting an id that no record of the collection has answers \<open>{success: true}\<close>
  and leaves the whole state as it is: the store is not written, no file is unlinked,
  the cache is not flushed (the journal does not grow), and a later \<open>/api/ask\<close> is
  answered as it would have been before. A flush in the journal of a delete means that
  the id was present; when it is present the cache is empty afterwards.
\<close>

theorem C10_delete_of_absent_id_changes_nothing:
  "(i \<notin> idF ` set (readDb s) \<longrightarrow>
      deleteFile e i s = (\<lparr>statusCode = 200, body = SuccessBody\<rparr>, s)) \<and>
   (i \<notin> idF ` set (readDb s) \<longrightarrow>
      ask toLowerCase e' req (snd (deleteFile e i s)) = ask toLowerCase e' req s) \<and>
   (CacheFlush \<in> set (journal (snd (deleteFile e i s))) \<and> CacheFlush \<notin> set (journal s) \<longrightarrow>
      i \<in> idF ` set (readDb s)) \<and>
   (i \<in> idF ` set (readDb s) \<longrightarrow>
      appCache (snd (deleteFile e i s)) = Map.empty \<and>
      last (journal (snd (deleteFile e i s))) = CacheFlush)"
  using deleteFile_absent [of i s e] journal_deleteFile_flush [of e i s]
    deleteFile_present_cache [of i s e]
  by auto

theorem C10_witness:
  "str ''nope'' \<notin> idF ` set (readDb serverCached) \<and>
   deleteFile env0 (str ''nope'') serverCached
     = (\<lparr>statusCode = 200, body = SuccessBody\<rparr>, serverCached) \<and>
   fst (ask lowerCase env0 askTaxa (snd (deleteFile env0 (str ''nope'') serverCached)))
     = \<lparr>statusCode = 200, body = StreamBody [str ''A taxa caiu.'']\<rparr> \<and>
   idF docNotas \<in> idF ` set (readDb serverCached) \<and>
   appCache (snd (deleteFile env0 (idF docNotas) serverCached)) = Map.empty"
proof -
  note c10 = C10_delete_of_absent_id_changes_nothing [of _ serverCached env0 lowerCase env0 askTaxa]
  have db: "readDb serverCached = [docNotas]"
    by (simp add: serverCached_def readDb_def)
  have absent: "str ''nope'' \<notin> idF ` set (readDb serverCached)"
    unfolding db by (simp add: docNotas_def sampleFile_def str_def)
  have present: "idF docNotas \<in> idF ` set (readDb serverCached)"
    unfolding db by simp
  have hit: "fst (ask lowerCase env0 askTaxa serverCached)
     = \<lparr>statusCode = 200, body = StreamBody [str ''A taxa caiu.'']\<rparr>"
    by (simp add: ask_def cachedResponse_def cache_get_def serverCached_def env0_def str_def)
  show ?thesis
    using c10 [of "str ''nope''"] c10 [of "idF docNotas"] absent present hit by simp
qed

section \<open>C8: a missing key and a failing model\<close>

text \<open>
  C8. Without an API key (none, or the empty string) \<open>/api/ask\<close> answers 500 with
  \<open>{error: "Server API Key missing"}\<close> and leaves the state as it is: nothing is
  streamed and the model is not called. With a key and no cached answer, when the model
  fails with an error \<open>err\<close>, possibly after some chunks, the answer is a 200 stream of
  the non-empty chunks followed by \<open>apology err\<close>, one of two fixed texts (the
  rate-limit text when the status is 429), and cache, store and files stay as they
  were. \<open>ask\<close> is a total function and its status is 500 exactly without a key, else
  200.
\<close>

theorem C8_ask_failures_are_answered:
  "(apiKey e = None \<or> apiKey e = Some [] \<longrightarrow>
      ask l e req s
        = (\<lparr>statusCode = 500, body = ErrorBody (str ''Server API Key missing'')\<rparr>, s)) \<and>
   (\<forall>err. apiKey e \<noteq> None \<and> apiKey e \<noteq> Some [] \<and> cachedResponse e s req = None \<and>
       failure (model e) = Some err \<longrightarrow>
      fst (ask l e req s)
        = \<lparr>statusCode = 200,
           body = StreamBody (filter (\<lambda>c. c \<noteq> []) (chunks (model e)) @ [apology err])\<rparr> \<and>
      appCache (snd (ask l e req s)) = appCache s \<and>
      dbFile (snd (ask l e req s)) = dbFile s \<and> disk (snd (ask l e req s)) = disk s) \<and>
   (apology err' = rateLimitText \<or> apology err' = genericErrorText) \<and>
   (errStatus err' = Some 429 \<longrightarrow> apology err' = rateLimitText) \<and>
   (statusCode (fst (ask l e req s)) = 500) = (apiKey e = None \<or> apiKey e = Some []) \<and>
   (statusCode (fst (ask l e req s)) = 200 \<or> statusCode (fst (ask l e req s)) = 500)"
proof -
  have 1: "apiKey e = None \<or> apiKey e = Some [] \<longrightarrow>
      ask l e req s
        = (\<lparr>statusCode = 500, body = ErrorBody (str ''Server API Key missing'')\<rparr>, s)"
    using ask_no_key by blast
  have 2: "\<forall>err. apiKey e \<noteq> None \<and> apiKey e \<noteq> Some [] \<and> cachedResponse e s req = None \<and>
       failure (model e) = Some err \<longrightarrow>
      fst (ask l e req s)
        = \<lparr>statusCode = 200,
           body = StreamBody (filter (\<lambda>c. c \<noteq> []) (chunks (model e)) @ [apology err])\<rparr> \<and>
      appCache (snd (ask l e req s)) = appCache s \<and>
      dbFile (snd (ask l e req s)) = dbFile s \<and> disk (snd (ask l e req s)) = disk s"
    by (simp add: ask_miss_fails)
  have 5: "(statusCode (fst (ask l e req s)) = 500) = (apiKey e = None \<or> apiKey e = Some [])"
    by (simp add: ask_status)
  have 6: "statusCode (fst (ask l e req s)) = 200 \<or> statusCode (fst (ask l e req s)) = 500"
    by (simp add: ask_status)
  show ?thesis
    using 1 2 apology_cases [of err'] apology_429 [of err'] 5 6 by (intro conjI) blast+
qed

theorem C8_witness:
  "apiKey envNoKey = None \<and>
   ask lowerCase envNoKey askTaxa server0
     = (\<lparr>statusCode = 500, body = ErrorBody (str ''Server API Key missing'')\<rparr>, server0) \<and>
   apiKey envQuota = Some (str ''key'') \<and> cachedResponse envQuota server0 askTaxa = None \<and>
   failure (model envQuota) = Some \<lparr>errStatus = Some 429, errMessage = None\<rparr> \<and>
   fst (ask lowerCase envQuota askTaxa server0)
     = \<lparr>statusCode = 200, body = StreamBody [str ''A taxa '', rateLimitText]\<rparr>"
proof -
  have k: "apiKey envNoKey = None" by (simp add: envNoKey_def)
  have q: "apiKey envQuota = Some (str ''key'')" "apiKey envQuota \<noteq> None"
    "apiKey envQuota \<noteq> Some []" "cachedResponse envQuota server0 askTaxa = None"
    "failure (model envQuota) = Some \<lparr>errStatus = Some 429, errMessage = None\<rparr>"
    "chunks (model envQuota) = [str ''A taxa '']"
    by (simp_all add: envQuota_def env0_def cachedResponse_def cache_get_def server0_def str_def)
  have a: "apology \<lparr>errStatus = Some 429, errMessage = None\<rparr> = rateLimitText"
    using C8_ask_failures_are_answered [of envQuota lowerCase askTaxa server0
        "\<lparr>errStatus = Some 429, errMessage = None\<rparr>"] by simp
  have "fst (ask lowerCase envQuota askTaxa server0)
     = \<lparr>statusCode = 200, body = StreamBody (filter (\<lambda>c. c \<noteq> []) (chunks (model envQuota))
          @ [apology \<lparr>errStatus = Some 429, errMessage = None\<rparr>])\<rparr>"
    using C8_ask_failures_are_answered [of envQuota lowerCase askTaxa server0] q(2-5) by blast
  then have f: "fst (ask lowerCase envQuota askTaxa server0)
     = \<lparr>statusCode = 200, body = StreamBody [str ''A taxa '', rateLimitText]\<rparr>"
    unfolding q(6) a by (simp add: str_def)
  have n: "ask lowerCase envNoKey askTaxa server0
     = (\<lparr>statusCode = 500, body = ErrorBody (str ''Server API Key missing'')\<rparr>, server0)"
    using C8_ask_failures_are_answered [of envNoKey lowerCase askTaxa server0] k by blast
  show ?thesis using k n q(1,4,5) f by simp
qed


section \<open>C4: the answer cache\<close>

text \<open>
  C4 (as amended). Let a request with an API key miss the cache, and let the model
  complete without an error and with a non-empty text. Then the request streams the
  model's chunks, the model is called once, and every later request with the same
  message and the same history length, with a key and at most 3600000 milliseconds
  after the answer was cached, is answered with the cached text in one piece and
  leaves the state as it is: after any number of them the state is still the one the
  first request left, with its single call of the model. When instead the model fails,
  or completes with no text, the cache is left as it was, and the next request with
  the same message and history length (with a key, not earlier than the first) misses
  the cache and calls the model again. An upload that carries a file and metadata other
  than \<open>null\<close>, and a delete of an id that is present, leave the cache empty; a request
  with a key on an empty cache calls the model. A delete of an id that is absent leaves
  the whole state, the cache included, as it was.
\<close>

theorem C4_cache_replay_and_flush:
  assumes "apiKey e1 \<noteq> None" and "apiKey e1 \<noteq> Some []"
    and "cachedResponse e1 s req = None" and "failure (model e1) = None"
    and "concat (chunks (model e1)) \<noteq> []"
    and "messageOf req' = messageOf req" and "length (historyOf req') = length (historyOf req)"
    and "\<forall>e\<in>set es. apiKey e \<noteq> None \<and> apiKey e \<noteq> Some [] \<and> now e \<le> finished e1 + 3600000"
  shows "fst (ask l e1 req s)
      = \<lparr>statusCode = 200, body = StreamBody (filter (\<lambda>c. c \<noteq> []) (chunks (model e1)))\<rparr> \<and>
    concat (filter (\<lambda>c. c \<noteq> []) (chunks (model e1))) = concat (chunks (model e1)) \<and>
    journal (snd (ask l e1 req s))
      = journal s @ [ModelCall (selectContext l (messageOf req) (readDb s))
          (chatHistory (historyOf req) @ [(str ''user'', messageOf req)])] \<and>
    (\<forall>e\<in>set es. ask l e req' (snd (ask l e1 req s))
       = (\<lparr>statusCode = 200, body = StreamBody [concat (chunks (model e1))]\<rparr>,
          snd (ask l e1 req s))) \<and>
    foldl (\<lambda>st e. snd (ask l e req' st)) (snd (ask l e1 req s)) es = snd (ask l e1 req s) \<and>
    (\<forall>f md. fileOfReq ureq = Some f \<and> fieldsOf (metadataOfReq ureq) = Some md \<longrightarrow>
       appCache (snd (upload l x eu ureq st)) = Map.empty) \<and>
    (i \<in> idF ` set (readDb st) \<longrightarrow> appCache (snd (deleteFile ed i st)) = Map.empty) \<and>
    (apiKey e2 \<noteq> None \<and> apiKey e2 \<noteq> Some [] \<and> appCache st' = Map.empty \<longrightarrow>
       journal (snd (ask l e2 req' st'))
         = journal st' @ [ModelCall (selectContext l (messageOf req') (readDb st'))
             (chatHistory (historyOf req') @ [(str ''user'', messageOf req')])]) \<and>
    (apiKey ef \<noteq> None \<and> apiKey ef \<noteq> Some [] \<and> cachedResponse ef sf rf = None \<and>
     ((\<exists>err. failure (model ef) = Some err) \<or> concat (chunks (model ef)) = []) \<and>
     messageOf rf' = messageOf rf \<and> length (historyOf rf') = length (historyOf rf) \<and>
     apiKey eg \<noteq> None \<and> apiKey eg \<noteq> Some [] \<and> now ef \<le> now eg \<longrightarrow>
       appCache (snd (ask l ef rf sf)) = appCache sf \<and>
       cachedResponse eg (snd (ask l ef rf sf)) rf' = None \<and>
       journal (snd (ask l eg rf' (snd (ask l ef rf sf))))
         = journal sf @ [ModelCall (selectContext l (messageOf rf) (readDb sf))
               (chatHistory (historyOf rf) @ [(str ''user'', messageOf rf)]),
             ModelCall (selectContext l (messageOf rf') (readDb sf))
               (chatHistory (historyOf rf') @ [(str ''user'', messageOf rf')])]) \<and>
    (i \<notin> idF ` set (readDb st) \<longrightarrow>
       deleteFile ed i st = (\<lparr>statusCode = 200, body = SuccessBody\<rparr>, st))"
proof -
  let ?t = "concat (chunks (model e1))"
  let ?call = "ModelCall (selectContext l (messageOf req) (readDb s))
          (chatHistory (historyOf req) @ [(str ''user'', messageOf req)])"
  let ?s1 = "s\<lparr>journal := journal s @ [?call],
      appCache := cache_set (finished e1) (appCache s) (cacheKey req) ?t\<rparr>"
  have first: "ask l e1 req s
      = (\<lparr>statusCode = 200, body = StreamBody (filter (\<lambda>c. c \<noteq> []) (chunks (model e1)))\<rparr>, ?s1)"
    using ask_miss_ok [OF assms(1-4), where l = l] assms(5) by simp
  have key: "cacheKey req' = cacheKey req"
    using assms(6,7) by (rule cacheKey_cong)
  have hit: "ask l e req' ?s1 = (\<lparr>statusCode = 200, body = StreamBody [?t]\<rparr>, ?s1)"
    if "e \<in> set es" for e
  proof -
    from that assms(8) have e: "apiKey e \<noteq> None" "apiKey e \<noteq> Some []"
      "now e \<le> finished e1 + 3600000" by auto
    have "cachedResponse e ?s1 req' = Some ?t"
      using cachedResponse_after_set [OF assms(5) e(3) key,
          where s = "s\<lparr>journal := journal s @ [?call]\<rparr>" and c = "appCache s"]
      by simp
    then show ?thesis using e(1,2) by (rule ask_hit [rotated 2])
  qed
  have many: "foldl (\<lambda>st e. snd (ask l e req' st)) ?s1 es = ?s1"
    using hit by (intro replay_many [where r = "\<lparr>statusCode = 200, body = StreamBody [?t]\<rparr>"]) blast
  have fresh: "journal (snd (ask l e2 req' st'))
         = journal st' @ [ModelCall (selectContext l (messageOf req') (readDb st'))
             (chatHistory (historyOf req') @ [(str ''user'', messageOf req')])]"
    if "apiKey e2 \<noteq> None" "apiKey e2 \<noteq> Some []" "appCache st' = Map.empty"
  proof (cases "failure (model e2)")
    case None
    then show ?thesis
      using ask_miss_ok [OF that(1,2) cachedResponse_empty [OF that(3)] None, where req = req' and l = l] by simp
  next
    case (Some err)
    then show ?thesis
      using ask_miss_fails [OF that(1,2) cachedResponse_empty [OF that(3)] Some, where req = req' and l = l] by simp
  qed
  have c1: "fst (ask l e1 req s)
      = \<lparr>statusCode = 200, body = StreamBody (filter (\<lambda>c. c \<noteq> []) (chunks (model e1)))\<rparr>"
    unfolding first by simp
  have c2: "concat (filter (\<lambda>c. c \<noteq> []) (chunks (model e1))) = concat (chunks (model e1))"
    by (rule concat_filter_nonempty)
  have c3: "journal (snd (ask l e1 req s)) = journal s @ [?call]"
    unfolding first by simp
  have c4: "\<forall>e\<in>set es. ask l e req' (snd (ask l e1 req s))
       = (\<lparr>statusCode = 200, body = StreamBody [?t]\<rparr>, snd (ask l e1 req s))"
    unfolding first snd_conv using hit by blast
  have c5: "foldl (\<lambda>st e. snd (ask l e req' st)) (snd (ask l e1 req s)) es = snd (ask l e1 req s)"
    unfolding first snd_conv using many .
  have c6: "\<forall>f md. fileOfReq ureq = Some f \<and> fieldsOf (metadataOfReq ureq) = Some md \<longrightarrow>
       appCache (snd (upload l x eu ureq st)) = Map.empty"
    using upload_flushes by blast
  have c7: "i \<in> idF ` set (readDb st) \<longrightarrow> appCache (snd (deleteFile ed i st)) = Map.empty"
    using deleteFile_present_cache by blast
  have c8: "apiKey e2 \<noteq> None \<and> apiKey e2 \<noteq> Some [] \<and> appCache st' = Map.empty \<longrightarrow>
       journal (snd (ask l e2 req' st'))
         = journal st' @ [ModelCall (selectContext l (messageOf req') (readDb st'))
             (chatHistory (historyOf req') @ [(str ''user'', messageOf req')])]"
    using fresh by blast
  have c9: "apiKey ef \<noteq> None \<and> apiKey ef \<noteq> Some [] \<and> cachedResponse ef sf rf = None \<and>
     ((\<exists>err. failure (model ef) = Some err) \<or> concat (chunks (model ef)) = []) \<and>
     messageOf rf' = messageOf rf \<and> length (historyOf rf') = length (historyOf rf) \<and>
     apiKey eg \<noteq> None \<and> apiKey eg \<noteq> Some [] \<and> now ef \<le> now eg \<longrightarrow>
       appCache (snd (ask l ef rf sf)) = appCache sf \<and>
       cachedResponse eg (snd (ask l ef rf sf)) rf' = None \<and>
       journal (snd (ask l eg rf' (snd (ask l ef rf sf))))
         = journal sf @ [ModelCall (selectContext l (messageOf rf) (readDb sf))
               (chatHistory (historyOf rf) @ [(str ''user'', messageOf rf)]),
             ModelCall (selectContext l (messageOf rf') (readDb sf))
               (chatHistory (historyOf rf') @ [(str ''user'', messageOf rf')])]"
  proof (intro impI, elim conjE)
    let ?callf = "ModelCall (selectContext l (messageOf rf) (readDb sf))
               (chatHistory (historyOf rf) @ [(str ''user'', messageOf rf)])"
    let ?sf1 = "sf\<lparr>journal := journal sf @ [?callf]\<rparr>"
    assume kf: "apiKey ef \<noteq> None" "apiKey ef \<noteq> Some []"
      and miss: "cachedResponse ef sf rf = None"
      and bad: "(\<exists>err. failure (model ef) = Some err) \<or> concat (chunks (model ef)) = []"
      and same: "messageOf rf' = messageOf rf" "length (historyOf rf') = length (historyOf rf)"
      and kg: "apiKey eg \<noteq> None" "apiKey eg \<noteq> Some []"
      and later: "now ef \<le> now eg"
    have st: "snd (ask l ef rf sf) = ?sf1"
    proof (cases "failure (model ef)")
      case (Some err)
      then show ?thesis using ask_miss_fails [OF kf miss Some, where l = l] by simp
    next
      case None
      then have "concat (chunks (model ef)) = []" using bad by simp
      then show ?thesis using ask_miss_ok [OF kf miss None, where l = l] by simp
    qed
    have "cachedResponse eg sf rf' = None"
      using miss later cacheKey_cong [OF same] by (rule cachedResponse_later)
    then have miss2: "cachedResponse eg ?sf1 rf' = None"
      by (simp add: cachedResponse_journal)
    have "journal (snd (ask l eg rf' ?sf1))
        = journal ?sf1 @ [ModelCall (selectContext l (messageOf rf') (readDb ?sf1))
               (chatHistory (historyOf rf') @ [(str ''user'', messageOf rf')])]"
    proof (cases "failure (model eg)")
      case (Some err)
      then show ?thesis
        using ask_miss_fails [OF kg miss2 Some, where l = l] by simp
    next
      case None
      then show ?thesis
        using ask_miss_ok [OF kg miss2 None, where l = l] by simp
    qed
    then have j: "journal (snd (ask l eg rf' ?sf1))
        = journal sf @ [?callf, ModelCall (selectContext l (messageOf rf') (readDb sf))
               (chatHistory (historyOf rf') @ [(str ''user'', messageOf rf')])]"
      by (simp add: readDb_def)
    show "appCache (snd (ask l ef rf sf)) = appCache sf \<and>
       cachedResponse eg (snd (ask l ef rf sf)) rf' = None \<and>
       journal (snd (ask l eg rf' (snd (ask l ef rf sf))))
         = journal sf @ [?callf, ModelCall (selectContext l (messageOf rf') (readDb sf))
               (chatHistory (historyOf rf') @ [(str ''user'', messageOf rf')])]"
      unfolding st using miss2 j by simp
  qed
  have c10: "i \<notin> idF ` set (readDb st) \<longrightarrow>
       deleteFile ed i st = (\<lparr>statusCode = 200, body = SuccessBody\<rparr>, st)"
    using deleteFile_absent by blast
  show ?thesis
    using c1 c2 c3 c4 c5 c6 c7 c8 c9 c10 by (intro conjI)
qed

theorem C4_witness:
  "cachedResponse env0 server0 askUser = None \<and> failure (model env0) = None \<and>
   concat (chunks (model env0)) = str ''A taxa caiu.'' \<and>
   messageOf askModel = messageOf askUser \<and>
   length (historyOf askModel) = length (historyOf askUser) \<and>
   now envLater \<le> finished env0 + 3600000 \<and>
   fst (ask lowerCase env0 askUser server0)
     = \<lparr>statusCode = 200, body = StreamBody [str ''A taxa '', str ''caiu.'']\<rparr> \<and>
   ask lowerCase envLater askModel (snd (ask lowerCase env0 askUser server0))
     = (\<lparr>statusCode = 200, body = StreamBody [str ''A taxa caiu.'']\<rparr>,
        snd (ask lowerCase env0 askUser server0)) \<and>
   length (journal (foldl (\<lambda>st e. snd (ask lowerCase e askModel st))
     (snd (ask lowerCase env0 askUser server0)) [envLater, envLater, envLater])) = 1 \<and>
   appCache (snd (upload lowerCase extnameOf env0 uploadCsv
     (snd (ask lowerCase env0 askUser server0)))) = Map.empty \<and>
   failure (model envQuota) = Some \<lparr>errStatus = Some 429, errMessage = None\<rparr> \<and>
   now envQuota \<le> now envLater \<and>
   appCache (snd (ask lowerCase envQuota askTaxa server0)) = appCache server0 \<and>
   length (journal (snd (ask lowerCase envLater askTaxa
     (snd (ask lowerCase envQuota askTaxa server0))))) = 2 \<and>
   failure (model envEmpty) = None \<and> concat (chunks (model envEmpty)) = [] \<and>
   appCache (snd (ask lowerCase envEmpty askTaxa server0)) = appCache server0 \<and>
   length (journal (snd (ask lowerCase envLater askTaxa
     (snd (ask lowerCase envEmpty askTaxa server0))))) = 2 \<and>
   str ''nope'' \<notin> idF ` set (readDb serverCached) \<and>
   deleteFile env0 (str ''nope'') serverCached
     = (\<lparr>statusCode = 200, body = SuccessBody\<rparr>, serverCached)"
proof -
  have h: "cachedResponse env0 server0 askUser = None"
    "messageOf askModel = messageOf askUser"
    "length (historyOf askModel) = length (historyOf askUser)"
    "\<forall>e\<in>set [envLater, envLater, envLater].
       apiKey e \<noteq> None \<and> apiKey e \<noteq> Some [] \<and> now e \<le> finished env0 + 3600000"
    by (simp_all add: server0_miss askUser_def askModel_def envLater_facts env0_facts)
  have ne: "concat (chunks (model env0)) \<noteq> []"
    unfolding env0_facts(4) by (rule nonempty_answer)
  have u: "fileOfReq uploadCsv = Some uploadedCsv \<and> fieldsOf (metadataOfReq uploadCsv) = Some fieldsSaude"
    by (simp add: uploadCsv_def)
  note c4 = C4_cache_replay_and_flush [OF env0_facts(1,2) h(1) env0_facts(3) ne h(2,3,4),
      where l = lowerCase and ureq = uploadCsv and x = extnameOf and eu = env0
        and st = "snd (ask lowerCase env0 askUser server0)" and i = "[]" and ed = env0
        and ?e2.0 = env0 and st' = server0]
  have a: "fst (ask lowerCase env0 askUser server0)
     = \<lparr>statusCode = 200, body = StreamBody [str ''A taxa '', str ''caiu.'']\<rparr>"
    using c4 [THEN conjunct1] unfolding env0_facts by (simp add: str_def)
  have j: "length (journal (snd (ask lowerCase env0 askUser server0))) = 1"
    using c4 [THEN conjunct2, THEN conjunct2, THEN conjunct1] by (simp add: server0_def)
  have b: "ask lowerCase envLater askModel (snd (ask lowerCase env0 askUser server0))
     = (\<lparr>statusCode = 200, body = StreamBody [str ''A taxa caiu.'']\<rparr>,
        snd (ask lowerCase env0 askUser server0))"
    using c4 [THEN conjunct2, THEN conjunct2, THEN conjunct2, THEN conjunct1]
    unfolding env0_facts(4) by simp
  have c: "foldl (\<lambda>st e. snd (ask lowerCase e askModel st))
     (snd (ask lowerCase env0 askUser server0)) [envLater, envLater, envLater]
       = snd (ask lowerCase env0 askUser server0)"
    using c4 [THEN conjunct2, THEN conjunct2, THEN conjunct2, THEN conjunct2, THEN conjunct1] .
  have d: "appCache (snd (upload lowerCase extnameOf env0 uploadCsv
     (snd (ask lowerCase env0 askUser server0)))) = Map.empty"
    using c4 [THEN conjunct2, THEN conjunct2, THEN conjunct2, THEN conjunct2, THEN conjunct2,
        THEN conjunct1] u by blast
  note inst = C4_cache_replay_and_flush [OF env0_facts(1,2) h(1) env0_facts(3) ne h(2,3,4)]
  note failing = inst [where l = lowerCase and ef = envQuota and sf = server0 and rf = askTaxa
      and rf' = askTaxa and eg = envLater,
      THEN conjunct2, THEN conjunct2, THEN conjunct2, THEN conjunct2,
      THEN conjunct2, THEN conjunct2, THEN conjunct2, THEN conjunct2, THEN conjunct1]
  note silent = inst [where l = lowerCase and ef = envEmpty and sf = server0 and rf = askTaxa
      and rf' = askTaxa and eg = envLater,
      THEN conjunct2, THEN conjunct2, THEN conjunct2, THEN conjunct2,
      THEN conjunct2, THEN conjunct2, THEN conjunct2, THEN conjunct2, THEN conjunct1]
  note absent = inst [where i = "str ''nope''" and st = serverCached and ed = env0,
      THEN conjunct2, THEN conjunct2, THEN conjunct2, THEN conjunct2,
      THEN conjunct2, THEN conjunct2, THEN conjunct2, THEN conjunct2, THEN conjunct2]
  have ee: "apiKey envEmpty \<noteq> None" "apiKey envEmpty \<noteq> Some []"
    "failure (model envEmpty) = None" "concat (chunks (model envEmpty)) = []"
    "now envEmpty \<le> now envLater" "now envQuota \<le> now envLater"
    by (simp_all add: envEmpty_def envQuota_def envLater_def env0_def str_def)
  have q: "appCache (snd (ask lowerCase envQuota askTaxa server0)) = appCache server0 \<and>
     cachedResponse envLater (snd (ask lowerCase envQuota askTaxa server0)) askTaxa = None \<and>
     journal (snd (ask lowerCase envLater askTaxa (snd (ask lowerCase envQuota askTaxa server0))))
       = journal server0 @ [ModelCall (selectContext lowerCase (messageOf askTaxa) (readDb server0))
             (chatHistory (historyOf askTaxa) @ [(str ''user'', messageOf askTaxa)]),
           ModelCall (selectContext lowerCase (messageOf askTaxa) (readDb server0))
             (chatHistory (historyOf askTaxa) @ [(str ''user'', messageOf askTaxa)])]"
    using failing envQuota_facts(1,2,3) envLater_facts(1,2) ee(6) server0_miss [of envQuota askTaxa]
    by simp
  have em: "appCache (snd (ask lowerCase envEmpty askTaxa server0)) = appCache server0 \<and>
     cachedResponse envLater (snd (ask lowerCase envEmpty askTaxa server0)) askTaxa = None \<and>
     journal (snd (ask lowerCase envLater askTaxa (snd (ask lowerCase envEmpty askTaxa server0))))
       = journal server0 @ [ModelCall (selectContext lowerCase (messageOf askTaxa) (readDb server0))
             (chatHistory (historyOf askTaxa) @ [(str ''user'', messageOf askTaxa)]),
           ModelCall (selectContext lowerCase (messageOf askTaxa) (readDb server0))
             (chatHistory (historyOf askTaxa) @ [(str ''user'', messageOf askTaxa)])]"
    using silent ee(1-5) envLater_facts(1,2) server0_miss [of envEmpty askTaxa]
    by simp
  have j0: "journal server0 = []" by (simp add: server0_def)
  have q2: "length (journal (snd (ask lowerCase envLater askTaxa
     (snd (ask lowerCase envQuota askTaxa server0))))) = 2"
    using q unfolding j0 by simp
  have em2: "length (journal (snd (ask lowerCase envLater askTaxa
     (snd (ask lowerCase envEmpty askTaxa server0))))) = 2"
    using em unfolding j0 by simp
  have nope: "str ''nope'' \<notin> idF ` set (readDb serverCached)"
    by (simp add: serverCached_def readDb_def docNotas_def sampleFile_def str_def)
  have del: "deleteFile env0 (str ''nope'') serverCached
     = (\<lparr>statusCode = 200, body = SuccessBody\<rparr>, serverCached)"
    using absent nope by blast
  have first_part: "cachedResponse env0 server0 askUser = None \<and> failure (model env0) = None \<and>
   concat (chunks (model env0)) = str ''A taxa caiu.'' \<and>
   messageOf askModel = messageOf askUser \<and>
   length (historyOf askModel) = length (historyOf askUser) \<and>
   now envLater \<le> finished env0 + 3600000 \<and>
   fst (ask lowerCase env0 askUser server0)
     = \<lparr>statusCode = 200, body = StreamBody [str ''A taxa '', str ''caiu.'']\<rparr> \<and>
   ask lowerCase envLater askModel (snd (ask lowerCase env0 askUser server0))
     = (\<lparr>statusCode = 200, body = StreamBody [str ''A taxa caiu.'']\<rparr>,
        snd (ask lowerCase env0 askUser server0)) \<and>
   length (journal (foldl (\<lambda>st e. snd (ask lowerCase e askModel st))
     (snd (ask lowerCase env0 askUser server0)) [envLater, envLater, envLater])) = 1 \<and>
   appCache (snd (upload lowerCase extnameOf env0 uploadCsv
     (snd (ask lowerCase env0 askUser server0)))) = Map.empty"
    unfolding c using h(1,2,3) env0_facts(3,4,5) envLater_facts(5) a b j d by simp
  show ?thesis
    using first_part envQuota_facts(3) ee(3,4,6) q [THEN conjunct1] q2 em [THEN conjunct1] em2
      nope del
    by (intro conjI) (elim conjE; assumption)+
qed

text \<open>
  C4 as the claim words it promises the replay for every pair of identical requests and
  a flush for every delete. When the model fails with status 429 nothing is cached, and
  the identical request 4 seconds later calls the model again and gets another text.
  When the delete between two identical requests names an id that is not in the
  collection, the cache is kept and the second request is answered from it.
\<close>

theorem C4_counterexample:
  "fst (ask lowerCase envQuota askTaxa server0)
     = \<lparr>statusCode = 200, body = StreamBody [str ''A taxa '', rateLimitText]\<rparr> \<and>
   now envLater \<le> finished envQuota + 3600000 \<and>
   fst (ask lowerCase envLater askTaxa (snd (ask lowerCase envQuota askTaxa server0)))
     = \<lparr>statusCode = 200, body = StreamBody [str ''A taxa '', str ''caiu.'']\<rparr> \<and>
   length (journal (snd (ask lowerCase envLater askTaxa
     (snd (ask lowerCase envQuota askTaxa server0))))) = 2 \<and>
   length (journal (snd (ask lowerCase env0 askTaxa server0))) = 1 \<and>
   fst (deleteFile env0 (str ''nope'') (snd (ask lowerCase env0 askTaxa server0)))
     = \<lparr>statusCode = 200, body = SuccessBody\<rparr> \<and>
   ask lowerCase envLater askTaxa
       (snd (deleteFile env0 (str ''nope'') (snd (ask lowerCase env0 askTaxa server0))))
     = (\<lparr>statusCode = 200, body = StreamBody [str ''A taxa caiu.'']\<rparr>,
        snd (ask lowerCase env0 askTaxa server0))"
proof -
  let ?call = "ModelCall (selectContext lowerCase (messageOf askTaxa) (readDb server0))
      (chatHistory (historyOf askTaxa) @ [(str ''user'', messageOf askTaxa)])"
  let ?sq = "server0\<lparr>journal := journal server0 @ [?call]\<rparr>"
  let ?s1 = "server0\<lparr>journal := journal server0 @ [?call],
      appCache := cache_set (finished env0) (appCache server0) (cacheKey askTaxa)
        (concat (chunks (model env0)))\<rparr>"
  have q: "ask lowerCase envQuota askTaxa server0
      = (\<lparr>statusCode = 200, body = StreamBody [str ''A taxa '', rateLimitText]\<rparr>, ?sq)"
    using ask_miss_fails [OF envQuota_facts(1,2) server0_miss envQuota_facts(3),
        where l = lowerCase and req = askTaxa]
    unfolding envQuota_facts by (simp add: apology_def isRateLimit_def str_def)
  have qmiss: "cachedResponse envLater ?sq askTaxa = None"
    by (simp add: cachedResponse_def cache_get_def server0_def)
  have q2: "fst (ask lowerCase envLater askTaxa ?sq)
      = \<lparr>statusCode = 200, body = StreamBody [str ''A taxa '', str ''caiu.'']\<rparr> \<and>
     length (journal (snd (ask lowerCase envLater askTaxa ?sq))) = 2"
    using ask_miss_ok [OF envLater_facts(1,2) qmiss envLater_facts(3), where l = lowerCase]
    unfolding envLater_facts by (simp add: server0_def nonempty_answer str_def)
  have ok: "ask lowerCase env0 askTaxa server0
      = (\<lparr>statusCode = 200, body = StreamBody [str ''A taxa '', str ''caiu.'']\<rparr>, ?s1)"
    using ask_miss_ok [OF env0_facts(1,2) server0_miss env0_facts(3),
        where l = lowerCase and req = askTaxa]
    unfolding env0_facts by (simp add: nonempty_answer str_def)
  have db: "readDb ?s1 = []" by (simp add: readDb_def server0_def)
  have del: "deleteFile env0 (str ''nope'') ?s1 = (\<lparr>statusCode = 200, body = SuccessBody\<rparr>, ?s1)"
    by (rule deleteFile_absent) (simp add: db)
  have "cachedResponse envLater ?s1 askTaxa = Some (concat (chunks (model env0)))"
    unfolding env0_facts(4,5)
    by (intro cachedResponse_after_set [where s = ?sq, simplified])
      (simp_all add: nonempty_answer envLater_facts)
  then have hit: "ask lowerCase envLater askTaxa ?s1
      = (\<lparr>statusCode = 200, body = StreamBody [str ''A taxa caiu.'']\<rparr>, ?s1)"
    using ask_hit [OF envLater_facts(1,2), where l = lowerCase] unfolding env0_facts(4) by simp
  show ?thesis
    unfolding q ok fst_conv snd_conv del
    using q2 hit by (simp add: envLater_facts envQuota_facts server0_def)
qed

end
